theory Spec2Isabelle
  imports Complex_Main "HOL-Library.Product_Lexorder" "HOL-Library.AList" "HOL-Library.Multiset"
    "HOL-Library.FSet"
begin

section \<open>Python values used by the pipeline\<close>

text \<open>
  The transform reads decoded JSON objects with \<^verbatim>\<open>dict.get\<close>. A field of a decoded
  object is modelled as an option: \<open>None\<close> is an absent key. Numeric fields hold JSON
  integers and flag fields hold JSON booleans, as the upstream provider sends them.
  For the three fields whose null value the code itself tests (the two player ids and
  \<^verbatim>\<open>oversActual\<close>) the value is an option again: \<open>Some None\<close> is a key that is
  present with the value null.
\<close>

datatype py_error = TypeError | IndexError | KeyError

definition get0 :: "int option \<Rightarrow> int" where
  \<comment> \<open>\<^verbatim>\<open>d.get(k, 0)\<close>\<close>
  "get0 v = (case v of None \<Rightarrow> 0 | Some n \<Rightarrow> n)"

definition truthy_flag :: "bool option \<Rightarrow> bool" where
  \<comment> \<open>truth value of \<^verbatim>\<open>d.get(k)\<close> and of \<^verbatim>\<open>d.get(k, False)\<close> for a boolean field\<close>
  "truthy_flag v = (case v of None \<Rightarrow> False | Some b \<Rightarrow> b)"

definition truthy_int :: "int option \<Rightarrow> bool" where
  \<comment> \<open>truth value of an integer or null: null and 0 are false\<close>
  "truthy_int v = (case v of None \<Rightarrow> False | Some n \<Rightarrow> n \<noteq> 0)"

definition digit :: "nat \<Rightarrow> char" where
  "digit d = char_of (48 + d)"

fun str_nat :: "nat \<Rightarrow> string" where
  "str_nat n = (if n < 10 then [digit n] else str_nat (n div 10) @ [digit (n mod 10)])"

declare str_nat.simps [simp del]

definition str_int :: "int \<Rightarrow> string" where
  \<comment> \<open>\<^verbatim>\<open>str(i)\<close>, and \<^verbatim>\<open>f"{i}"\<close>\<close>
  "str_int i = (if i < 0 then CHR ''-'' # str_nat (nat (- i)) else str_nat (nat i))"

definition zfill :: "nat \<Rightarrow> string \<Rightarrow> string" where
  "zfill w s = replicate (w - length s) CHR ''0'' @ s"

definition fmt_0d :: "nat \<Rightarrow> int \<Rightarrow> string" where
  \<comment> \<open>\<^verbatim>\<open>f"{i:0wd}"\<close>: zero padding to width \<open>w\<close>, the sign counted in the width\<close>
  "fmt_0d w i = (if i < 0 then CHR ''-'' # zfill (w - 1) (str_nat (nat (- i)))
                 else zfill w (str_nat (nat i)))"

section \<open>The cricinfo transformer\<close>

subsection \<open>Commentary events\<close>

record comment =
  inningNumber :: "int option"
  overNumber :: "int option"
  ballNumber :: "int option"
  batsmanPlayerId :: "int option option"
  bowlerPlayerId :: "int option option"
  oversActual :: "rat option option"
  totalRuns :: "int option"
  batsmanRuns :: "int option"
  legbyes :: "int option"
  byes :: "int option"
  wides :: "int option"
  noballs :: "int option"
  isWicket :: "bool option"
  isFour :: "bool option"
  isSix :: "bool option"
  dismissalType :: "int option"

subsection \<open>validate_date\<close>

text \<open>
  \<^verbatim>\<open>calendar.monthrange(year, month)[1]\<close> of the Python standard library: the number
  of days of the month, for a month in 1..12 and any year (the proleptic Gregorian
  leap-year rule). The caller checks the month first.
\<close>

definition isleap :: "int \<Rightarrow> bool" where
  "isleap y \<longleftrightarrow> y mod 4 = 0 \<and> (y mod 100 \<noteq> 0 \<or> y mod 400 = 0)"

definition mdays :: "int list" where
  "mdays = [0, 31, 28, 31, 30, 31, 30, 31, 31, 30, 31, 30, 31]"

definition monthrange_days :: "int \<Rightarrow> int \<Rightarrow> int" where
  "monthrange_days y m = mdays ! nat m + (if m = 2 \<and> isleap y then 1 else 0)"

record dob =
  date :: "int option"
  month :: "int option"
  year :: "int option"

definition validate_date :: "dob option \<Rightarrow> string option" where
  \<comment> \<open>the argument is \<open>None\<close> for a missing or null date of birth\<close>
  "validate_date d =
    (case d of
       None \<Rightarrow> None
     | Some dob \<Rightarrow>
        if date dob = None \<or> month dob = None \<or> year dob = None then None
        else
          (let year = the (year dob); month = the (month dob); day = the (date dob)
           in if month < 1 \<or> month > 12 then None
              else
                (let last_day = monthrange_days year month;
                     day = (if day < 1 then 1 else if day > last_day then last_day else day)
                 in Some (fmt_0d 4 year @ ''-'' @ fmt_0d 2 month @ ''-'' @ fmt_0d 2 day))))"

text \<open>The ten characters YYYY-MM-DD of a date, digit by digit.\<close>

definition iso_date :: "int \<Rightarrow> int \<Rightarrow> int \<Rightarrow> string" where
  "iso_date y m d =
    [digit (nat y div 1000), digit (nat y div 100 mod 10), digit (nat y div 10 mod 10),
     digit (nat y mod 10), CHR ''-'',
     digit (nat m div 10), digit (nat m mod 10), CHR ''-'',
     digit (nat d div 10), digit (nat d mod 10)]"

definition clamp_day :: "int \<Rightarrow> int \<Rightarrow> int \<Rightarrow> int" where
  \<comment> \<open>the day moved into 1 .. last day of the month\<close>
  "clamp_day y m d = max 1 (min d (monthrange_days y m))"

subsection \<open>determine_outcome\<close>

definition determine_outcome :: "comment \<Rightarrow> string" where
  "determine_outcome c =
    (if truthy_flag (isWicket c) then ''wicket''
     else if get0 (wides c) > 0 then ''wide''
     else if get0 (noballs c) > 0 then
       (let runs_off_bat = get0 (batsmanRuns c) in
        if runs_off_bat = 4 then ''noball+four''
        else if runs_off_bat = 6 then ''noball+six''
        else if runs_off_bat > 0 then ''noball+run''
        else ''noball'')
     else if truthy_flag (isFour c) then ''four''
     else if truthy_flag (isSix c) then ''six''
     else if get0 (batsmanRuns c) > 0 \<or> get0 (legbyes c) > 0 \<or> get0 (byes c) > 0 then
       (if get0 (totalRuns c) > 0 then ''run'' else ''no run'')
     else ''no run'')"

text \<open>An event with no key at all; examples set the fields they need.\<close>

definition empty_comment :: comment where
  "empty_comment =
    \<lparr>inningNumber = None, overNumber = None, ballNumber = None,
     batsmanPlayerId = None, bowlerPlayerId = None, oversActual = None,
     totalRuns = None, batsmanRuns = None, legbyes = None, byes = None,
     wides = None, noballs = None, isWicket = None, isFour = None, isSix = None,
     dismissalType = None\<rparr>"

text \<open>
  The outcome label as the amended claim C1 words it: the precedence of the
  specification, with the label \<open>run\<close> given when off-bat, leg-bye or bye runs are
  positive and the total-runs field is positive as well.
\<close>

definition outcome_by_precedence :: "comment \<Rightarrow> string" where
  "outcome_by_precedence c =
    (let wicket = truthy_flag (isWicket c);
         wide = (get0 (wides c) > 0);
         noball = (get0 (noballs c) > 0);
         bat = get0 (batsmanRuns c);
         scored = ((bat > 0 \<or> get0 (legbyes c) > 0 \<or> get0 (byes c) > 0)
                   \<and> get0 (totalRuns c) > 0)
     in if wicket then ''wicket''
        else if wide then ''wide''
        else if noball \<and> bat = 4 then ''noball+four''
        else if noball \<and> bat = 6 then ''noball+six''
        else if noball \<and> bat > 0 then ''noball+run''
        else if noball then ''noball''
        else if truthy_flag (isFour c) then ''four''
        else if truthy_flag (isSix c) then ''six''
        else if scored then ''run''
        else ''no run'')"

subsection \<open>Match-level data\<close>

text \<open>
  The parts of the match document the replay reads: the two team entries (an entry is
  \<open>None\<close> when the list element has no \<^verbatim>\<open>team\<close> key), the status text and the
  scheduled overs. The player lookup \<^verbatim>\<open>player_details\<close>, built from the captain,
  batter and bowler sub-documents before the replay starts, is taken as a parameter.
\<close>

record team =
  team_id :: "int option"
  team_longName :: "string option"

record match_info =
  teams :: "team option list option"
  statusText :: "string option"
  scheduledOvers :: "int option"

record player_detail =
  pd_name :: "string option"
  pd_team_id :: "int option"

definition build_team_names :: "match_info \<Rightarrow> (int \<times> string) list" where
  \<comment> \<open>the insertion-ordered dict \<^verbatim>\<open>team_names\<close>\<close>
  "build_team_names mi =
    fold (\<lambda>team_info tn.
            case team_info of
              None \<Rightarrow> tn
            | Some t \<Rightarrow>
               (case (team_id t, team_longName t) of
                  (Some i, Some n) \<Rightarrow> if i \<noteq> 0 \<and> n \<noteq> [] then AList.update i n tn else tn
                | _ \<Rightarrow> tn))
         (case teams mi of None \<Rightarrow> [] | Some ts \<Rightarrow> ts) []"

definition compute_max_balls :: "match_info \<Rightarrow> int" where
  "compute_max_balls mi =
    (if truthy_int (scheduledOvers mi) then get0 (scheduledOvers mi) * 6 else 120)"

definition compute_target :: "int option list \<Rightarrow> int option" where
  \<comment> \<open>the argument lists the \<^verbatim>\<open>runs\<close> field of each innings document\<close>
  "compute_target innings_runs =
    (case innings_runs of
       [] \<Rightarrow> None
     | r # _ \<Rightarrow> (case r of None \<Rightarrow> None | Some n \<Rightarrow> Some (n + 1)))"

subsection \<open>Running aggregates\<close>

record inning_stat =
  inn_runs :: int
  inn_wkts :: int
  inn_balls :: int

record batsman_stat =
  bat_runs :: int
  bat_bf :: int

record bowler_stat =
  bowl_balls :: int
  bowl_runs :: int
  bowl_wkts :: int

record stats =
  inning_stats :: "int \<rightharpoonup> inning_stat"
  batsman_stats :: "int \<times> int \<rightharpoonup> batsman_stat"
  bowler_stats :: "int \<times> int \<rightharpoonup> bowler_stat"

definition empty_stats :: stats where
  "empty_stats = \<lparr>inning_stats = Map.empty, batsman_stats = Map.empty, bowler_stats = Map.empty\<rparr>"

text \<open>The entry of a scope, as the replay initialises it when the scope is first seen.\<close>

definition inning_stat_of :: "stats \<Rightarrow> int \<Rightarrow> inning_stat" where
  "inning_stat_of st i =
    (case inning_stats st i of
       None \<Rightarrow> \<lparr>inn_runs = 0, inn_wkts = 0, inn_balls = 0\<rparr>
     | Some s \<Rightarrow> s)"

definition batsman_stat_of :: "stats \<Rightarrow> int \<times> int \<Rightarrow> batsman_stat" where
  "batsman_stat_of st k =
    (case batsman_stats st k of None \<Rightarrow> \<lparr>bat_runs = 0, bat_bf = 0\<rparr> | Some s \<Rightarrow> s)"

definition bowler_stat_of :: "stats \<Rightarrow> int \<times> int \<Rightarrow> bowler_stat" where
  "bowler_stat_of st k =
    (case bowler_stats st k of
       None \<Rightarrow> \<lparr>bowl_balls = 0, bowl_runs = 0, bowl_wkts = 0\<rparr>
     | Some s \<Rightarrow> s)"

definition update_stats :: "stats \<Rightarrow> int \<Rightarrow> int \<Rightarrow> int \<Rightarrow> comment \<Rightarrow> stats" where
  "update_stats st inning_num batsman_id bowler_id c =
    (let current_inning_stat = inning_stat_of st inning_num;
         current_batsman_stat = batsman_stat_of st (inning_num, batsman_id);
         current_bowler_stat = bowler_stat_of st (inning_num, bowler_id);
         total_runs_this_ball = get0 (totalRuns c);
         batsman_runs_this_ball = get0 (batsmanRuns c);
         legbyes_this_ball = get0 (legbyes c);
         byes_this_ball = get0 (byes c);
         wides_this_ball = get0 (wides c);
         noballs_this_ball = get0 (noballs c);
         is_wicket = truthy_flag (isWicket c);
         current_inning_stat =
           current_inning_stat\<lparr>inn_runs := inn_runs current_inning_stat + total_runs_this_ball\<rparr>;
         is_legal_delivery = (wides_this_ball = 0 \<and> noballs_this_ball = 0);
         current_inning_stat =
           (if is_legal_delivery
            then current_inning_stat\<lparr>inn_balls := inn_balls current_inning_stat + 1\<rparr>
            else current_inning_stat);
         current_bowler_stat =
           (if is_legal_delivery
            then current_bowler_stat\<lparr>bowl_balls := bowl_balls current_bowler_stat + 1\<rparr>
            else current_bowler_stat);
         current_batsman_stat =
           (if is_legal_delivery
            then current_batsman_stat\<lparr>bat_bf := bat_bf current_batsman_stat + 1\<rparr>
            else current_batsman_stat);
         current_batsman_stat =
           current_batsman_stat\<lparr>bat_runs := bat_runs current_batsman_stat + batsman_runs_this_ball\<rparr>;
         runs_conceded = total_runs_this_ball - byes_this_ball - legbyes_this_ball;
         current_bowler_stat =
           current_bowler_stat\<lparr>bowl_runs := bowl_runs current_bowler_stat + runs_conceded\<rparr>;
         current_bowler_stat =
           (if is_wicket \<and> dismissalType c \<in> {Some 1, Some 2, Some 3, Some 5, Some 11}
            then current_bowler_stat\<lparr>bowl_wkts := bowl_wkts current_bowler_stat + 1\<rparr>
            else current_bowler_stat);
         current_inning_stat =
           (if is_wicket
            then current_inning_stat\<lparr>inn_wkts := inn_wkts current_inning_stat + 1\<rparr>
            else current_inning_stat)
     in \<lparr>inning_stats = (inning_stats st)(inning_num \<mapsto> current_inning_stat),
         batsman_stats = (batsman_stats st)((inning_num, batsman_id) \<mapsto> current_batsman_stat),
         bowler_stats = (bowler_stats st)((inning_num, bowler_id) \<mapsto> current_bowler_stat)\<rparr>)"

subsection \<open>format_ball_id\<close>

text \<open>
  \<^verbatim>\<open>oversActual\<close> is a JSON decimal such as 18.6. The source computes on its binary
  floating-point value; the model computes on the decimal itself. The replay only
  tests the result for being None or empty.
\<close>

definition py_int :: "rat \<Rightarrow> int" where
  \<comment> \<open>\<^verbatim>\<open>int(x)\<close>: truncation towards zero\<close>
  "py_int x = (if x \<ge> 0 then \<lfloor>x\<rfloor> else \<lceil>x\<rceil>)"

definition py_round :: "rat \<Rightarrow> int" where
  \<comment> \<open>\<^verbatim>\<open>round(x)\<close>: to the nearest integer, a tie to the even one\<close>
  "py_round x =
    (let f = \<lfloor>x\<rfloor>; d = x - of_int f
     in if d < 1 / 2 then f
        else if d > 1 / 2 then f + 1
        else if even f then f else f + 1)"

definition format_ball_id :: "rat option \<Rightarrow> string option" where
  "format_ball_id overs_actual =
    (case overs_actual of
       None \<Rightarrow> None
     | Some x \<Rightarrow>
        (let over_part = py_int x;
             ball_part_decimal = py_round ((x - of_int over_part) * 10)
         in if ball_part_decimal = 0 \<and> x > 0
              then Some (str_int over_part @ ''.0'' @ str_int ball_part_decimal)
            else if ball_part_decimal > 0
              then Some (str_int over_part @ ''.0'' @ str_int ball_part_decimal)
            else Some (str_int over_part @ ''.00'')))"

subsection \<open>The replay loop of create_bbb_json\<close>

text \<open>
  The output record, with the fields the properties below are about. The four
  floating-point chase fields (\<^verbatim>\<open>inns_runs_rem\<close>, \<^verbatim>\<open>inns_rr\<close>, \<^verbatim>\<open>inns_rrr\<close>,
  \<^verbatim>\<open>target\<close>) and the descriptive fields copied from the event are left out.
  \<^verbatim>\<open>cur_bowl_ovr\<close> is the sum \<^verbatim>\<open>balls // 6 + (balls % 6) / 10\<close>, kept exact.
\<close>

record ball_data =
  bd_inns :: int
  bd_team1 :: "string option"
  bd_team2 :: "string option"
  bd_p_bat :: int
  bd_bat :: "string option"
  bd_team_bat :: "string option"
  bd_team_bowl :: "string option"
  bd_p_bowl :: int
  bd_bowl :: "string option"
  bd_ball :: int
  bd_outcome :: string
  bd_score :: int
  bd_out :: bool
  bd_over :: int
  bd_noball :: int
  bd_wide :: int
  bd_byes :: int
  bd_legbyes :: int
  bd_cur_bat_runs :: int
  bd_cur_bat_bf :: int
  bd_cur_bowl_ovr :: rat
  bd_cur_bowl_wkts :: int
  bd_cur_bowl_runs :: int
  bd_inns_runs :: int
  bd_inns_wkts :: int
  bd_inns_balls :: int
  bd_inns_balls_rem :: "int option"
  bd_max_balls :: int
  bd_batruns :: int
  bd_ballfaced :: int
  bd_bowlruns :: int

record env =
  e_match_info :: match_info
  e_player_details :: "int \<rightharpoonup> player_detail"
  e_team_names :: "(int \<times> string) list"
  e_target :: "int option"
  e_max_balls :: int

definition has_required_keys :: "comment \<Rightarrow> bool" where
  "has_required_keys c \<longleftrightarrow>
     inningNumber c \<noteq> None \<and> overNumber c \<noteq> None \<and> ballNumber c \<noteq> None \<and>
     batsmanPlayerId c \<noteq> None \<and> bowlerPlayerId c \<noteq> None \<and> oversActual c \<noteq> None"

definition has_player_ids :: "comment \<Rightarrow> bool" where
  \<comment> \<open>the negation of \<^verbatim>\<open>not batsman_id or not bowler_id\<close>\<close>
  "has_player_ids c \<longleftrightarrow>
     truthy_int (the (batsmanPlayerId c)) \<and> truthy_int (the (bowlerPlayerId c))"

definition infer_teams ::
  "(int \<times> string) list \<Rightarrow> int \<Rightarrow> int option \<Rightarrow> int option \<Rightarrow> int option \<times> int option" where
  "infer_teams team_names inning_num bat_team_id bowl_team_id =
    (if \<not> truthy_int bat_team_id \<or> \<not> truthy_int bowl_team_id then
       (case map fst team_names of
          [inn1_bat_team_id, inn1_bowl_team_id] \<Rightarrow>
            if inning_num = 1 then
              (if \<not> truthy_int bat_team_id then Some inn1_bat_team_id else bat_team_id,
               if \<not> truthy_int bowl_team_id then Some inn1_bowl_team_id else bowl_team_id)
            else if inning_num = 2 then
              (if \<not> truthy_int bat_team_id then Some inn1_bowl_team_id else bat_team_id,
               if \<not> truthy_int bowl_team_id then Some inn1_bat_team_id else bowl_team_id)
            else (bat_team_id, bowl_team_id)
        | _ \<Rightarrow> (bat_team_id, bowl_team_id))
     else (bat_team_id, bowl_team_id))"

definition ball_teams :: "env \<Rightarrow> comment \<Rightarrow> int option \<times> int option" where
  \<comment> \<open>\<^verbatim>\<open>bat_team_id\<close> and \<^verbatim>\<open>bowl_team_id\<close> after the inference\<close>
  "ball_teams e c =
    (let batsman_detail = e_player_details e (the (the (batsmanPlayerId c)));
         bowler_detail = e_player_details e (the (the (bowlerPlayerId c)));
         bat_team_id = (case batsman_detail of None \<Rightarrow> None | Some d \<Rightarrow> pd_team_id d);
         bowl_team_id = (case bowler_detail of None \<Rightarrow> None | Some d \<Rightarrow> pd_team_id d)
     in infer_teams (e_team_names e) (the (inningNumber c)) bat_team_id bowl_team_id)"

definition has_teams :: "env \<Rightarrow> comment \<Rightarrow> bool" where
  "has_teams e c \<longleftrightarrow> truthy_int (fst (ball_teams e c)) \<and> truthy_int (snd (ball_teams e c))"

definition team_longName_at :: "match_info \<Rightarrow> nat \<Rightarrow> py_error + string option" where
  \<comment> \<open>\<^verbatim>\<open>match_info.get('teams')[i]['team'].get('longName')\<close>\<close>
  "team_longName_at mi i =
    (case teams mi of
       None \<Rightarrow> Inl TypeError
     | Some ts \<Rightarrow>
        if i < length ts
        then (case ts ! i of None \<Rightarrow> Inl KeyError | Some t \<Rightarrow> Inr (team_longName t))
        else Inl IndexError)"

definition make_ball_data :: "env \<Rightarrow> stats \<Rightarrow> comment \<Rightarrow> py_error + ball_data" where
  \<comment> \<open>the dict literal \<^verbatim>\<open>ball_data\<close>, built from the aggregates after the update;
      \<^verbatim>\<open>"wickets" in match_info.get('statusText')\<close> raises on a missing status text\<close>
  "make_ball_data e st c =
    (let inning_num = the (inningNumber c);
         batsman_id = the (the (batsmanPlayerId c));
         bowler_id = the (the (bowlerPlayerId c));
         current_inning_stat = inning_stat_of st inning_num;
         current_batsman_stat = batsman_stat_of st (inning_num, batsman_id);
         current_bowler_stat = bowler_stat_of st (inning_num, bowler_id);
         total_runs_this_ball = get0 (totalRuns c);
         is_legal_delivery = (get0 (wides c) = 0 \<and> get0 (noballs c) = 0);
         bowler_balls_completed = bowl_balls current_bowler_stat;
         bowler_overs_part = bowler_balls_completed div 6;
         bowler_balls_part = bowler_balls_completed mod 6;
         cur_bowl_ovr = of_int bowler_overs_part + of_int bowler_balls_part / 10;
         inns_balls_rem =
           (if inning_num = 2 \<and> e_target e \<noteq> None
            then Some (e_max_balls e - inn_balls current_inning_stat) else None)
     in case team_longName_at (e_match_info e) 0 of
          Inl err \<Rightarrow> Inl err
        | Inr team1 \<Rightarrow>
           (case team_longName_at (e_match_info e) 1 of
              Inl err \<Rightarrow> Inl err
            | Inr team2 \<Rightarrow>
               (case statusText (e_match_info e) of
                  None \<Rightarrow> Inl TypeError
                | Some _ \<Rightarrow>
                   Inr \<lparr>bd_inns = inning_num,
                        bd_team1 = team1,
                        bd_team2 = team2,
                        bd_p_bat = batsman_id,
                        bd_bat = (case e_player_details e batsman_id of
                                    None \<Rightarrow> None | Some d \<Rightarrow> pd_name d),
                        bd_team_bat = (case fst (ball_teams e c) of
                                         None \<Rightarrow> None | Some t \<Rightarrow> map_of (e_team_names e) t),
                        bd_team_bowl = (case snd (ball_teams e c) of
                                          None \<Rightarrow> None | Some t \<Rightarrow> map_of (e_team_names e) t),
                        bd_p_bowl = bowler_id,
                        bd_bowl = (case e_player_details e bowler_id of
                                     None \<Rightarrow> None | Some d \<Rightarrow> pd_name d),
                        bd_ball = the (ballNumber c),
                        bd_outcome = determine_outcome c,
                        bd_score = total_runs_this_ball,
                        bd_out = truthy_flag (isWicket c),
                        bd_over = the (overNumber c),
                        bd_noball = get0 (noballs c),
                        bd_wide = get0 (wides c),
                        bd_byes = get0 (byes c),
                        bd_legbyes = get0 (legbyes c),
                        bd_cur_bat_runs = bat_runs current_batsman_stat,
                        bd_cur_bat_bf = bat_bf current_batsman_stat,
                        bd_cur_bowl_ovr = cur_bowl_ovr,
                        bd_cur_bowl_wkts = bowl_wkts current_bowler_stat,
                        bd_cur_bowl_runs = bowl_runs current_bowler_stat,
                        bd_inns_runs = inn_runs current_inning_stat,
                        bd_inns_wkts = inn_wkts current_inning_stat,
                        bd_inns_balls = inn_balls current_inning_stat,
                        bd_inns_balls_rem = inns_balls_rem,
                        bd_max_balls = e_max_balls e,
                        bd_batruns = get0 (batsmanRuns c),
                        bd_ballfaced = (if is_legal_delivery then 1 else 0),
                        bd_bowlruns = total_runs_this_ball - get0 (byes c) - get0 (legbyes c)\<rparr>)))"

text \<open>
  One iteration of the loop over the sorted events. The three guards at the top skip
  the event (\<^verbatim>\<open>continue\<close>); \<open>the\<close> is applied only behind the guard that makes its
  argument a \<open>Some\<close>. The result is the aggregates after the iteration and the record
  appended to the output, if any; an exception ends the whole call.
\<close>

definition process_comment :: "env \<Rightarrow> stats \<Rightarrow> comment \<Rightarrow> py_error + (stats \<times> ball_data option)" where
  "process_comment e st c =
    (if \<not> has_required_keys c then Inr (st, None)
     else if \<not> has_player_ids c then Inr (st, None)
     else if \<not> has_teams e c then Inr (st, None)
     else
       (let st' = update_stats st (the (inningNumber c)) (the (the (batsmanPlayerId c)))
                    (the (the (bowlerPlayerId c))) c;
            ball_id_str = format_ball_id (the (oversActual c))
        in if ball_id_str = None \<or> ball_id_str = Some [] then Inr (st', None)
           else (case make_ball_data e st' c of
                   Inl err \<Rightarrow> Inl err
                 | Inr r \<Rightarrow> Inr (st', Some r))))"

fun process_comments :: "env \<Rightarrow> stats \<Rightarrow> comment list \<Rightarrow> py_error + ball_data list" where
  "process_comments e st [] = Inr []"
| "process_comments e st (c # cs) =
     (case process_comment e st c of
        Inl err \<Rightarrow> Inl err
      | Inr (st', r) \<Rightarrow>
         (case process_comments e st' cs of
            Inl err \<Rightarrow> Inl err
          | Inr out \<Rightarrow> Inr (case r of None \<Rightarrow> out | Some b \<Rightarrow> b # out)))"

definition sort_key_of :: "comment \<Rightarrow> int \<times> int \<times> int" where
  \<comment> \<open>the key of \<^verbatim>\<open>comments.sort\<close>\<close>
  "sort_key_of c = (get0 (inningNumber c), get0 (overNumber c), get0 (ballNumber c))"

definition create_bbb_json ::
  "match_info \<Rightarrow> int option list \<Rightarrow> (int \<rightharpoonup> player_detail) \<Rightarrow> comment list
   \<Rightarrow> py_error + ball_data list" where
  "create_bbb_json mi innings_runs player_details comments =
    (let comments = sort_key sort_key_of comments;
         e = \<lparr>e_match_info = mi,
              e_player_details = player_details,
              e_team_names = build_team_names mi,
              e_target = compute_target innings_runs,
              e_max_balls = compute_max_balls mi\<rparr>
     in process_comments e empty_stats comments)"

definition record_key :: "ball_data \<Rightarrow> int \<times> int \<times> int" where
  \<comment> \<open>the key triple (innings, over, ball in over) of an output record\<close>
  "record_key r = (bd_inns r, bd_over r, bd_ball r)"

subsection \<open>Vocabulary of the replay properties\<close>

definition processed :: "env \<Rightarrow> comment \<Rightarrow> bool" where
  \<comment> \<open>the event passes the three guards, so the aggregates are updated with it\<close>
  "processed e c \<longleftrightarrow> has_required_keys c \<and> has_player_ids c \<and> has_teams e c"

definition emits :: "env \<Rightarrow> comment \<Rightarrow> bool" where
  \<comment> \<open>the event also passes the late guard on the formatted ball id\<close>
  "emits e c \<longleftrightarrow> processed e c \<and> format_ball_id (the (oversActual c)) \<noteq> None
                 \<and> format_ball_id (the (oversActual c)) \<noteq> Some []"

definition runs_consistent :: "comment \<Rightarrow> bool" where
  \<comment> \<open>the run fields of a scorer's record: nothing negative, extras within the total\<close>
  "runs_consistent c \<longleftrightarrow> 0 \<le> get0 (totalRuns c) \<and> 0 \<le> get0 (batsmanRuns c)
       \<and> get0 (byes c) + get0 (legbyes c) \<le> get0 (totalRuns c)"

definition overs_of :: "int \<Rightarrow> rat" where
  \<comment> \<open>\<^verbatim>\<open>cur_bowl_ovr\<close> as a function of the bowler's legal balls\<close>
  "overs_of n = of_int (n div 6) + of_int (n mod 6) / 10"

definition in_innings :: "int \<Rightarrow> ball_data list \<Rightarrow> ball_data list" where
  "in_innings i out = filter (\<lambda>r. bd_inns r = i) out"

definition of_batter :: "int \<Rightarrow> int \<Rightarrow> ball_data list \<Rightarrow> ball_data list" where
  "of_batter i b out = filter (\<lambda>r. (bd_inns r, bd_p_bat r) = (i, b)) out"

definition of_bowler :: "int \<Rightarrow> int \<Rightarrow> ball_data list \<Rightarrow> ball_data list" where
  "of_bowler i w out = filter (\<lambda>r. (bd_inns r, bd_p_bowl r) = (i, w)) out"

subsection \<open>An example match\<close>

definition ex_match_info :: match_info where
  "ex_match_info =
    \<lparr>teams = Some [Some \<lparr>team_id = Some 6, team_longName = Some ''India''\<rparr>,
                   Some \<lparr>team_id = Some 2, team_longName = Some ''Australia''\<rparr>],
     statusText = Some ''India won by 5 runs'',
     scheduledOvers = Some 20\<rparr>"

definition ex_player_details :: "int \<rightharpoonup> player_detail" where
  "ex_player_details =
    [10 \<mapsto> \<lparr>pd_name = Some ''Batter'', pd_team_id = Some 6\<rparr>,
     20 \<mapsto> \<lparr>pd_name = Some ''Bowler'', pd_team_id = Some 2\<rparr>]"

definition ex_env :: env where
  "ex_env =
    \<lparr>e_match_info = ex_match_info,
     e_player_details = ex_player_details,
     e_team_names = build_team_names ex_match_info,
     e_target = compute_target [],
     e_max_balls = compute_max_balls ex_match_info\<rparr>"

definition ex_ball :: "int \<Rightarrow> int \<Rightarrow> int \<Rightarrow> comment" where
  \<comment> \<open>a dot ball of batter 10 against bowler 20\<close>
  "ex_ball i ov b =
    empty_comment\<lparr>inningNumber := Some i, overNumber := Some ov, ballNumber := Some b,
      batsmanPlayerId := Some (Some 10), bowlerPlayerId := Some (Some 20),
      oversActual := Some (Some (of_int (ov - 1) + of_int b / 10)),
      totalRuns := Some 0, batsmanRuns := Some 0\<rparr>"

definition ex_wicket :: "int \<Rightarrow> comment" where
  \<comment> \<open>a wicket with the given dismissal type; 2 is bowled, 4 is not a credited kind\<close>
  "ex_wicket d = (ex_ball 1 1 1)\<lparr>isWicket := Some True, dismissalType := Some d\<rparr>"

definition ex_wide :: comment where
  "ex_wide = (ex_ball 1 1 1)\<lparr>wides := Some 1, totalRuns := Some 1\<rparr>"

definition ex_single :: comment where
  "ex_single = (ex_ball 1 1 2)\<lparr>totalRuns := Some 1, batsmanRuns := Some 1\<rparr>"

definition ex_null_overs :: comment where
  \<comment> \<open>a single whose \<^verbatim>\<open>oversActual\<close> key is present with the value null\<close>
  "ex_null_overs = ex_single\<lparr>oversActual := Some None\<rparr>"

definition ex_bye_no_total :: comment where
  \<comment> \<open>a bye whose \<^verbatim>\<open>totalRuns\<close> key is absent\<close>
  "ex_bye_no_total = (ex_ball 1 1 2)\<lparr>totalRuns := None, byes := Some 1\<rparr>"

definition output_of :: "comment list \<Rightarrow> ball_data list" where
  \<comment> \<open>the records of the example match with the given events\<close>
  "output_of cs =
    (case create_bbb_json ex_match_info [] ex_player_details cs of
       Inr out \<Rightarrow> out
     | Inl _ \<Rightarrow> [])"

section \<open>The crawler\<close>

subsection \<open>Decoded JSON payloads\<close>

text \<open>
  A decoded payload, with Python's truth value and \<^verbatim>\<open>len\<close>. An object is the list of
  its key-value pairs, the keys distinct as in a dict. Numbers are integers.
\<close>

datatype json =
  JNull | JBool bool | JInt int | JStr string | JArr "json list" | JObj "(string \<times> json) list"

fun truthy :: "json \<Rightarrow> bool" where
  "truthy JNull = False"
| "truthy (JBool b) = b"
| "truthy (JInt n) = (n \<noteq> 0)"
| "truthy (JStr s) = (s \<noteq> [])"
| "truthy (JArr xs) = (xs \<noteq> [])"
| "truthy (JObj kvs) = (kvs \<noteq> [])"

fun py_len :: "json \<Rightarrow> py_error + nat" where
  "py_len (JStr s) = Inr (length s)"
| "py_len (JArr xs) = Inr (length xs)"
| "py_len (JObj kvs) = Inr (length kvs)"
| "py_len _ = Inl TypeError"

subsection \<open>fetch_url\<close>

record url_info =
  ui_url :: string
  ui_fixture_id :: int
  ui_type :: string

record response =
  status_code :: int
  body :: "json option"

text \<open>
  What the transport gives back for one request: an exception, or a response whose body
  is \<open>None\<close> when \<^verbatim>\<open>response.json()\<close> raises JSONDecodeError.
\<close>

datatype fetched = Raised | Response response

record fetch_result =
  res_fixture_id :: int
  res_type :: string
  res_data :: json

definition fetch_url :: "url_info \<Rightarrow> fetched \<Rightarrow> fetch_result option" where
  "fetch_url url_info got =
    (let fixture_id = ui_fixture_id url_info; data_type = ui_type url_info
     in case got of
          Raised \<Rightarrow> None
        | Response response \<Rightarrow>
           if status_code response \<noteq> 200 then None
           else
             (case body response of
                None \<Rightarrow> None
              | Some data \<Rightarrow>
                 (case (if truthy data
                        then (case py_len data of Inl err \<Rightarrow> Inl err | Inr n \<Rightarrow> Inr (n \<le> 1))
                        else Inr False) of
                    Inl err \<Rightarrow> None
                  | Inr no_data \<Rightarrow>
                     if no_data then None
                     else Some \<lparr>res_fixture_id = fixture_id, res_type = data_type,
                                res_data = data\<rparr>)))"

subsection \<open>generate_urls\<close>

definition JSON_DATA_DIR :: string where
  "JSON_DATA_DIR = ''json_data''"

definition BASE_SCORECARD_URL :: "int \<Rightarrow> string" where
  "BASE_SCORECARD_URL fixture_id =
    ''https://apiv2.cricket.com.au/web/views/scorecard?fixtureId='' @ str_int fixture_id
    @ ''&jsconfig=eccn%3Atrue&format=json''"

definition BASE_COMMENTS_URL :: "int \<Rightarrow> int \<Rightarrow> string" where
  "BASE_COMMENTS_URL fixture_id inning_num =
    ''https://apiv2.cricket.com.au/web/views/comments?fixtureId='' @ str_int fixture_id
    @ ''&inningNumber='' @ str_int inning_num
    @ ''&commentType=&overLimit=499&jsconfig=eccn%3Atrue&format=json''"

definition base_path :: "int \<Rightarrow> string" where
  "base_path fixture_id = JSON_DATA_DIR @ ''/aucb_matches/'' @ str_int fixture_id"

definition scorecard_file :: "int \<Rightarrow> string" where
  "scorecard_file fixture_id = base_path fixture_id @ ''/scorecard.json''"

definition inning_file :: "int \<Rightarrow> int \<Rightarrow> string" where
  "inning_file fixture_id inning_num =
    base_path fixture_id @ ''/inning'' @ str_int inning_num @ ''.json''"

definition fixture_urls :: "(string \<Rightarrow> bool) \<Rightarrow> int \<Rightarrow> url_info list" where
  \<comment> \<open>what one iteration of the loop over the fixture ids appends; the first argument is
      \<^verbatim>\<open>file_exists\<close> on the blob store\<close>
  "fixture_urls file_exists fixture_id =
    (if \<not> file_exists (scorecard_file fixture_id)
     then [\<lparr>ui_url = BASE_SCORECARD_URL fixture_id, ui_fixture_id = fixture_id,
            ui_type = ''scorecard''\<rparr>]
     else [])
    @ concat (map (\<lambda>inning_num.
                     if \<not> file_exists (inning_file fixture_id inning_num)
                     then [\<lparr>ui_url = BASE_COMMENTS_URL fixture_id inning_num,
                            ui_fixture_id = fixture_id,
                            ui_type = ''inning'' @ str_int inning_num\<rparr>]
                     else [])
              [1, 2, 3, 4])"

fun generate_loop :: "(string \<Rightarrow> bool) \<Rightarrow> int list \<Rightarrow> url_info list \<Rightarrow> url_info list" where
  "generate_loop file_exists [] urls = urls"
| "generate_loop file_exists (fixture_id # rest) urls =
     (let urls = urls @ fixture_urls file_exists fixture_id
      in if length urls > 1000 then urls else generate_loop file_exists rest urls)"

definition generate_urls :: "(string \<Rightarrow> bool) \<Rightarrow> int fset \<Rightarrow> url_info list" where
  "generate_urls file_exists fixture_ids =
    generate_loop file_exists (rev (sorted_list_of_fset fixture_ids)) []"

text \<open>The five document kinds of a fixture, in the order the loop visits them.\<close>

definition kinds :: "string list" where
  "kinds = [''scorecard'', ''inning1'', ''inning2'', ''inning3'', ''inning4'']"

definition kind_file :: "int \<Rightarrow> string \<Rightarrow> string" where
  "kind_file fixture_id kind = base_path fixture_id @ ''/'' @ kind @ ''.json''"

subsection \<open>Vocabulary of the crawler properties\<close>

definition kept :: "url_info \<Rightarrow> json \<Rightarrow> fetch_result" where
  "kept url_info data =
    \<lparr>res_fixture_id = ui_fixture_id url_info, res_type = ui_type url_info, res_data = data\<rparr>"

definition urls_upto :: "(string \<Rightarrow> bool) \<Rightarrow> int list \<Rightarrow> nat \<Rightarrow> url_info list" where
  \<comment> \<open>the requests of the first \<open>n\<close> fixture ids of the list\<close>
  "urls_upto file_exists ids n = concat (map (fixture_urls file_exists) (take n ids))"

subsection \<open>Example requests\<close>

definition ex_url_info :: url_info where
  "ex_url_info = \<lparr>ui_url = BASE_SCORECARD_URL 7, ui_fixture_id = 7, ui_type = ''scorecard''\<rparr>"

text \<open>A blob store that holds the second innings of fixture 12 and nothing else.\<close>

definition ex_exists :: "string \<Rightarrow> bool" where
  "ex_exists p \<longleftrightarrow> p = ''json_data/aucb_matches/12/inning2.json''"

section \<open>Outcome classification\<close>

text \<open>
  C1 (as stated): after wicket, wide, no-ball, four and six, any positive runs give the
  label \<open>run\<close>. The code does not: a delivery with one off-bat run and no total-runs
  field, and a delivery whose total of five runs comes from none of off-bat, bye or
  leg-bye runs, are both labelled \<open>no run\<close>.
\<close>

theorem determine_outcome_run_counterexample:
  "determine_outcome (empty_comment\<lparr>batsmanRuns := Some 1\<rparr>) = ''no run''
   \<and> determine_outcome (empty_comment\<lparr>totalRuns := Some 5\<rparr>) = ''no run''"
  by (simp add: determine_outcome_def empty_comment_def get0_def truthy_flag_def)

text \<open>
  C1 (amended): the label is decided by the fixed precedence wicket, wide, no-ball
  (with its four sub-labels by off-bat runs 4, 6, positive, otherwise), four, six,
  then \<open>run\<close> when off-bat, leg-bye or bye runs are positive and the total-runs field
  is positive too, and \<open>no run\<close> otherwise.
\<close>

theorem determine_outcome_precedence:
  "determine_outcome c = outcome_by_precedence c"
  by (simp add: determine_outcome_def outcome_by_precedence_def Let_def)

section \<open>The replay step\<close>

lemma process_comment_skipped:
  "\<not> processed e c \<Longrightarrow> process_comment e st c = Inr (st, None)"
  by (auto simp: processed_def process_comment_def)

lemma inning_stat_of_update:
  "inning_stat_of (update_stats st i b w c) j =
     (if j = i
      then \<lparr>inn_runs = inn_runs (inning_stat_of st i) + get0 (totalRuns c),
            inn_wkts = inn_wkts (inning_stat_of st i) + (if truthy_flag (isWicket c) then 1 else 0),
            inn_balls = inn_balls (inning_stat_of st i)
                        + (if get0 (wides c) = 0 \<and> get0 (noballs c) = 0 then 1 else 0)\<rparr>
      else inning_stat_of st j)"
  by (simp add: update_stats_def inning_stat_of_def Let_def)

lemma batsman_stat_of_update:
  "batsman_stat_of (update_stats st i b w c) k =
     (if k = (i, b)
      then \<lparr>bat_runs = bat_runs (batsman_stat_of st k) + get0 (batsmanRuns c),
            bat_bf = bat_bf (batsman_stat_of st k)
                     + (if get0 (wides c) = 0 \<and> get0 (noballs c) = 0 then 1 else 0)\<rparr>
      else batsman_stat_of st k)"
  by (simp add: update_stats_def batsman_stat_of_def Let_def)

lemma bowler_stat_of_update:
  "bowler_stat_of (update_stats st i b w c) k =
     (if k = (i, w)
      then \<lparr>bowl_balls = bowl_balls (bowler_stat_of st k)
                         + (if get0 (wides c) = 0 \<and> get0 (noballs c) = 0 then 1 else 0),
            bowl_runs = bowl_runs (bowler_stat_of st k)
                        + (get0 (totalRuns c) - get0 (byes c) - get0 (legbyes c)),
            bowl_wkts = bowl_wkts (bowler_stat_of st k)
                        + (if truthy_flag (isWicket c)
                              \<and> dismissalType c \<in> {Some 1, Some 2, Some 3, Some 5, Some 11}
                           then 1 else 0)\<rparr>
      else bowler_stat_of st k)"
  by (simp add: update_stats_def bowler_stat_of_def Let_def)

lemma make_ball_data_keys:
  assumes "make_ball_data e st c = Inr r"
  shows "bd_inns r = the (inningNumber c)" "bd_over r = the (overNumber c)"
        "bd_ball r = the (ballNumber c)" "bd_p_bat r = the (the (batsmanPlayerId c))"
        "bd_p_bowl r = the (the (bowlerPlayerId c))"
  using assms
  by (auto simp: make_ball_data_def Let_def split: sum.splits option.splits)

lemma make_ball_data_snapshot:
  assumes "make_ball_data e st c = Inr r"
  shows "bd_inns_runs r = inn_runs (inning_stat_of st (bd_inns r))"
        "bd_inns_wkts r = inn_wkts (inning_stat_of st (bd_inns r))"
        "bd_inns_balls r = inn_balls (inning_stat_of st (bd_inns r))"
        "bd_cur_bat_runs r = bat_runs (batsman_stat_of st (bd_inns r, bd_p_bat r))"
        "bd_cur_bat_bf r = bat_bf (batsman_stat_of st (bd_inns r, bd_p_bat r))"
        "bd_cur_bowl_runs r = bowl_runs (bowler_stat_of st (bd_inns r, bd_p_bowl r))"
        "bd_cur_bowl_wkts r = bowl_wkts (bowler_stat_of st (bd_inns r, bd_p_bowl r))"
        "bd_cur_bowl_ovr r = overs_of (bowl_balls (bowler_stat_of st (bd_inns r, bd_p_bowl r)))"
  using assms
  by (auto simp: make_ball_data_def overs_of_def Let_def split: sum.splits option.splits)

lemma process_comment_cases:
  assumes "process_comment e st c = Inr (st', r)"
  shows "(\<not> processed e c \<and> st' = st \<and> r = None)
       \<or> (processed e c
          \<and> st' = update_stats st (the (inningNumber c)) (the (the (batsmanPlayerId c)))
                    (the (the (bowlerPlayerId c))) c
          \<and> (case r of None \<Rightarrow> \<not> emits e c
             | Some x \<Rightarrow> emits e c \<and> make_ball_data e st' c = Inr x))"
  using assms
  by (auto simp: processed_def emits_def process_comment_def Let_def
           split: if_splits sum.splits)

lemma process_comment_state:
  assumes "process_comment e st c = Inr (st', r)"
  shows "st' = st \<or> st' = update_stats st (the (inningNumber c)) (the (the (batsmanPlayerId c)))
                    (the (the (bowlerPlayerId c))) c"
  using process_comment_cases [OF assms] by auto

lemma process_comment_processed:
  assumes "processed e c" and "process_comment e st c = Inr (st', r)"
    and "inningNumber c = Some i" and "batsmanPlayerId c = Some (Some b)"
    and "bowlerPlayerId c = Some (Some w)"
  shows "st' = update_stats st i b w c"
  using process_comment_cases [OF assms(2)] assms(1,3-5) by auto

lemma process_comment_snapshot:
  assumes "process_comment e st c = Inr (st', Some x)"
  shows "make_ball_data e st' c = Inr x"
  using process_comment_cases [OF assms] by auto

lemma process_comment_emitted:
  assumes "emits e c" and "inningNumber c = Some i" and "batsmanPlayerId c = Some (Some b)"
    and "bowlerPlayerId c = Some (Some w)"
    and "make_ball_data e (update_stats st i b w c) c = Inr x"
  shows "process_comment e st c = Inr (update_stats st i b w c, Some x)"
  using assms by (auto simp: emits_def processed_def process_comment_def Let_def)

lemma process_comment_late_skip:
  assumes "processed e c" and "inningNumber c = Some i" and "batsmanPlayerId c = Some (Some b)"
    and "bowlerPlayerId c = Some (Some w)" and "oversActual c = Some None"
  shows "process_comment e st c = Inr (update_stats st i b w c, None)"
  using assms by (auto simp: processed_def process_comment_def format_ball_id_def Let_def)

lemma record_key_emitted:
  assumes "process_comment e st c = Inr (st', Some x)"
  shows "emits e c \<and> record_key x = sort_key_of c"
proof -
  from process_comment_cases [OF assms]
  have em: "emits e c" and mk: "make_ball_data e st' c = Inr x" by auto
  from em have "has_required_keys c" by (simp add: emits_def processed_def)
  then have "sort_key_of c = (the (inningNumber c), the (overNumber c), the (ballNumber c))"
    by (auto simp: has_required_keys_def sort_key_of_def get0_def)
  with em make_ball_data_keys [OF mk] show ?thesis by (simp add: record_key_def)
qed

lemma process_comments_keys:
  "process_comments e st cs = Inr out \<Longrightarrow>
     map record_key out = map sort_key_of (filter (emits e) cs)"
proof (induction cs arbitrary: st out)
  case Nil
  then show ?case by simp
next
  case (Cons c cs)
  from Cons.prems obtain st' r out' where
    step: "process_comment e st c = Inr (st', r)" and
    rest: "process_comments e st' cs = Inr out'" and
    out: "out = (case r of None \<Rightarrow> out' | Some b \<Rightarrow> b # out')"
    by (auto split: sum.splits)
  note ih = Cons.IH [OF rest]
  show ?case
  proof (cases r)
    case None
    with process_comment_cases [OF step] have "\<not> emits e c" by (auto simp: emits_def)
    with None out ih show ?thesis by simp
  next
    case (Some x)
    with record_key_emitted step have "emits e c" "record_key x = sort_key_of c" by auto
    with Some out ih show ?thesis by simp
  qed
qed

lemma snapshots_sorted:
  fixes V :: "stats \<Rightarrow> 'k \<Rightarrow> 'v::linorder"
  assumes step: "\<And>st c st' r. P c \<Longrightarrow> process_comment e st c = Inr (st', r) \<Longrightarrow>
            (\<forall>k. V st k \<le> V st' k) \<and> (\<forall>x. r = Some x \<longrightarrow> F x = V st' (K x))"
    and "\<forall>c\<in>set cs. P c"
    and "process_comments e st cs = Inr out"
  shows "sorted (map F (filter (\<lambda>r. K r = k) out)) \<and> (\<forall>r\<in>set out. K r = k \<longrightarrow> V st k \<le> F r)"
  using assms(2,3)
proof (induction cs arbitrary: st out)
  case Nil
  then show ?case by simp
next
  case (Cons c cs)
  from Cons.prems(2) obtain st' r out' where
    st: "process_comment e st c = Inr (st', r)" and
    rest: "process_comments e st' cs = Inr out'" and
    out: "out = (case r of None \<Rightarrow> out' | Some b \<Rightarrow> b # out')"
    by (auto split: sum.splits)
  from Cons.prems(1) have pc: "P c" and pcs: "\<forall>c\<in>set cs. P c" by auto
  from step [OF pc st] have mono: "V st k \<le> V st' k"
    and snap: "\<And>x. r = Some x \<Longrightarrow> F x = V st' (K x)" by auto
  from Cons.IH [OF pcs rest]
  have srt: "sorted (map F (filter (\<lambda>r. K r = k) out'))"
    and lb: "\<forall>r\<in>set out'. K r = k \<longrightarrow> V st' k \<le> F r" by auto
  show ?case
  proof (cases r)
    case None
    with out srt lb mono show ?thesis by (auto intro: order_trans)
  next
    case (Some x)
    with out srt lb mono snap [OF Some] show ?thesis by (auto intro: order_trans)
  qed
qed

lemma overs_mono:
  fixes a :: int
  shows "(of_int (a div 6) + of_int (a mod 6) / 10 :: rat)
           \<le> of_int ((a + 1) div 6) + of_int ((a + 1) mod 6) / 10"
proof (cases "a mod 6 = 5")
  case True
  then have "(a + 1) div 6 = a div 6 + 1" "(a + 1) mod 6 = 0" by presburger+
  with True show ?thesis by simp
next
  case False
  then have "(a + 1) div 6 = a div 6" "(a + 1) mod 6 = a mod 6 + 1" by presburger+
  then show ?thesis by simp
qed

lemma update_stats_mono:
  "inn_wkts (inning_stat_of st k) \<le> inn_wkts (inning_stat_of (update_stats st i b w c) k)"
  "inn_balls (inning_stat_of st k) \<le> inn_balls (inning_stat_of (update_stats st i b w c) k)"
  "bat_bf (batsman_stat_of st kb) \<le> bat_bf (batsman_stat_of (update_stats st i b w c) kb)"
  "bowl_balls (bowler_stat_of st kw) \<le> bowl_balls (bowler_stat_of (update_stats st i b w c) kw)"
  "bowl_wkts (bowler_stat_of st kw) \<le> bowl_wkts (bowler_stat_of (update_stats st i b w c) kw)"
  by (simp_all add: inning_stat_of_update batsman_stat_of_update bowler_stat_of_update)

lemma update_stats_runs_mono:
  assumes "runs_consistent c"
  shows "inn_runs (inning_stat_of st k) \<le> inn_runs (inning_stat_of (update_stats st i b w c) k)"
    "bat_runs (batsman_stat_of st kb) \<le> bat_runs (batsman_stat_of (update_stats st i b w c) kb)"
    "bowl_runs (bowler_stat_of st kw) \<le> bowl_runs (bowler_stat_of (update_stats st i b w c) kw)"
  using assms
  by (simp_all add: runs_consistent_def inning_stat_of_update batsman_stat_of_update
        bowler_stat_of_update)

lemma overs_of_update_mono:
  "overs_of (bowl_balls (bowler_stat_of st kw))
     \<le> overs_of (bowl_balls (bowler_stat_of (update_stats st i b w c) kw))"
proof -
  let ?n = "bowl_balls (bowler_stat_of st kw)"
  have "bowl_balls (bowler_stat_of (update_stats st i b w c) kw) = ?n
      \<or> bowl_balls (bowler_stat_of (update_stats st i b w c) kw) = ?n + 1"
    by (simp add: bowler_stat_of_update)
  then show ?thesis
    using overs_mono [of ?n] by (auto simp: overs_of_def)
qed

lemma process_comment_mono:
  assumes "process_comment e st c = Inr (st', r)"
  shows "inn_wkts (inning_stat_of st k) \<le> inn_wkts (inning_stat_of st' k)"
    "inn_balls (inning_stat_of st k) \<le> inn_balls (inning_stat_of st' k)"
    "bat_bf (batsman_stat_of st kb) \<le> bat_bf (batsman_stat_of st' kb)"
    "overs_of (bowl_balls (bowler_stat_of st kw)) \<le> overs_of (bowl_balls (bowler_stat_of st' kw))"
    "bowl_wkts (bowler_stat_of st kw) \<le> bowl_wkts (bowler_stat_of st' kw)"
  using process_comment_state [OF assms]
  by (auto simp: update_stats_mono overs_of_update_mono)

lemma process_comment_runs_mono:
  assumes "process_comment e st c = Inr (st', r)" and "runs_consistent c"
  shows "inn_runs (inning_stat_of st k) \<le> inn_runs (inning_stat_of st' k)"
    "bat_runs (batsman_stat_of st kb) \<le> bat_runs (batsman_stat_of st' kb)"
    "bowl_runs (bowler_stat_of st kw) \<le> bowl_runs (bowler_stat_of st' kw)"
  using process_comment_state [OF assms(1)]
  by (auto simp: update_stats_runs_mono [OF assms(2)])

lemma filter_emits_keys: "filter (emits e) cs = filter (emits e) (filter has_required_keys cs)"
  by (induction cs) (auto simp: emits_def processed_def)

lemma distinct_map_sort_key:
  "distinct (map f (filter P (sort_key g xs))) = distinct (map f (filter P xs))"
proof -
  have "mset (map f (filter P (sort_key g xs))) = mset (map f (filter P xs))"
    by simp
  then show ?thesis by (rule mset_eq_imp_distinct_iff)
qed

lemma create_bbb_json_replay:
  assumes "create_bbb_json mi innings_runs player_details comments = Inr out"
  shows "process_comments
           \<lparr>e_match_info = mi, e_player_details = player_details,
            e_team_names = build_team_names mi, e_target = compute_target innings_runs,
            e_max_balls = compute_max_balls mi\<rparr>
           empty_stats (sort_key sort_key_of comments) = Inr out"
  using assms by (simp add: create_bbb_json_def Let_def)

lemma scope_sorted:
  fixes V :: "stats \<Rightarrow> 'k \<Rightarrow> 'v::linorder"
  assumes run: "process_comments e st cs = Inr out"
    and P: "\<forall>c\<in>set cs. P c"
    and mono: "\<And>st c st' r k. P c \<Longrightarrow> process_comment e st c = Inr (st', r) \<Longrightarrow> V st k \<le> V st' k"
    and snap: "\<And>st c x. make_ball_data e st c = Inr x \<Longrightarrow> F x = V st (K x)"
  shows "sorted (map F (filter (\<lambda>r. K r = k) out))"
proof -
  have "sorted (map F (filter (\<lambda>r. K r = k) out)) \<and> (\<forall>r\<in>set out. K r = k \<longrightarrow> V st k \<le> F r)"
  proof (rule snapshots_sorted [where P = P and e = e and cs = cs and V = V])
    fix st c st' r
    assume "P c" and step: "process_comment e st c = Inr (st', r)"
    then have "\<forall>k. V st k \<le> V st' k" using mono by blast
    moreover have "\<forall>x. r = Some x \<longrightarrow> F x = V st' (K x)"
      using step process_comment_snapshot snap by blast
    ultimately show "(\<forall>k. V st k \<le> V st' k) \<and> (\<forall>x. r = Some x \<longrightarrow> F x = V st' (K x))" ..
  qed (use P run in auto)
  then show ?thesis ..
qed

lemma sorted_inns_wkts:
  assumes "process_comments e st cs = Inr out"
  shows "sorted (map bd_inns_wkts (in_innings i out))"
  unfolding in_innings_def
proof (rule scope_sorted [OF assms, where P = "\<lambda>_. True" and V = "\<lambda>st k. inn_wkts (inning_stat_of st k)"])
qed (simp_all add: process_comment_mono make_ball_data_snapshot)

lemma sorted_inns_balls:
  assumes "process_comments e st cs = Inr out"
  shows "sorted (map bd_inns_balls (in_innings i out))"
  unfolding in_innings_def
proof (rule scope_sorted [OF assms, where P = "\<lambda>_. True" and V = "\<lambda>st k. inn_balls (inning_stat_of st k)"])
qed (simp_all add: process_comment_mono make_ball_data_snapshot)

lemma sorted_cur_bat_bf:
  assumes "process_comments e st cs = Inr out"
  shows "sorted (map bd_cur_bat_bf (of_batter i b out))"
  unfolding of_batter_def
proof (rule scope_sorted [OF assms, where P = "\<lambda>_. True" and V = "\<lambda>st k. bat_bf (batsman_stat_of st k)"])
qed (simp_all add: process_comment_mono make_ball_data_snapshot)

lemma sorted_cur_bowl_ovr:
  assumes "process_comments e st cs = Inr out"
  shows "sorted (map bd_cur_bowl_ovr (of_bowler i w out))"
  unfolding of_bowler_def
proof (rule scope_sorted [OF assms, where P = "\<lambda>_. True" and V = "\<lambda>st k. overs_of (bowl_balls (bowler_stat_of st k))"])
qed (simp_all add: process_comment_mono make_ball_data_snapshot)

lemma sorted_cur_bowl_wkts:
  assumes "process_comments e st cs = Inr out"
  shows "sorted (map bd_cur_bowl_wkts (of_bowler i w out))"
  unfolding of_bowler_def
proof (rule scope_sorted [OF assms, where P = "\<lambda>_. True" and V = "\<lambda>st k. bowl_wkts (bowler_stat_of st k)"])
qed (simp_all add: process_comment_mono make_ball_data_snapshot)

lemma sorted_inns_runs:
  assumes "process_comments e st cs = Inr out" and "\<forall>c\<in>set cs. runs_consistent c"
  shows "sorted (map bd_inns_runs (in_innings i out))"
  unfolding in_innings_def
proof (rule scope_sorted [OF assms, where V = "\<lambda>st k. inn_runs (inning_stat_of st k)"])
qed (simp_all add: process_comment_runs_mono make_ball_data_snapshot)

lemma sorted_cur_bat_runs:
  assumes "process_comments e st cs = Inr out" and "\<forall>c\<in>set cs. runs_consistent c"
  shows "sorted (map bd_cur_bat_runs (of_batter i b out))"
  unfolding of_batter_def
proof (rule scope_sorted [OF assms, where V = "\<lambda>st k. bat_runs (batsman_stat_of st k)"])
qed (simp_all add: process_comment_runs_mono make_ball_data_snapshot)

lemma sorted_cur_bowl_runs:
  assumes "process_comments e st cs = Inr out" and "\<forall>c\<in>set cs. runs_consistent c"
  shows "sorted (map bd_cur_bowl_runs (of_bowler i w out))"
  unfolding of_bowler_def
proof (rule scope_sorted [OF assms, where V = "\<lambda>st k. bowl_runs (bowler_stat_of st k)"])
qed (simp_all add: process_comment_runs_mono make_ball_data_snapshot)

section \<open>The example match, evaluated\<close>

lemma ex_ball_fields:
  "inningNumber (ex_ball i ov b) = Some i" "batsmanPlayerId (ex_ball i ov b) = Some (Some 10)"
  "bowlerPlayerId (ex_ball i ov b) = Some (Some 20)"
  by (simp_all add: ex_ball_def empty_comment_def)

lemma ex_wicket_fields:
  "inningNumber (ex_wicket d) = Some 1" "batsmanPlayerId (ex_wicket d) = Some (Some 10)"
  "bowlerPlayerId (ex_wicket d) = Some (Some 20)" "truthy_flag (isWicket (ex_wicket d))"
  "dismissalType (ex_wicket d) = Some d"
  by (simp_all add: ex_wicket_def ex_ball_def empty_comment_def truthy_flag_def)

lemma ex_emits: "emits ex_env (ex_wicket 2)" "emits ex_env (ex_wicket 4)"
  "emits ex_env ex_wide" "emits ex_env ex_single"
  by code_simp+

lemma ex_make:
  "make_ball_data ex_env (update_stats empty_stats 1 10 20 (ex_wicket 2)) (ex_wicket 2)
     = Inr (hd (output_of [ex_wicket 2]))"
  "make_ball_data ex_env (update_stats empty_stats 1 10 20 (ex_wicket 4)) (ex_wicket 4)
     = Inr (hd (output_of [ex_wicket 4]))"
  by code_simp+

lemma ex_comment_fields:
  "inningNumber ex_wide = Some 1" "batsmanPlayerId ex_wide = Some (Some 10)"
  "bowlerPlayerId ex_wide = Some (Some 20)"
  "inningNumber ex_single = Some 1" "batsmanPlayerId ex_single = Some (Some 10)"
  "bowlerPlayerId ex_single = Some (Some 20)"
  "inningNumber ex_null_overs = Some 1" "batsmanPlayerId ex_null_overs = Some (Some 10)"
  "bowlerPlayerId ex_null_overs = Some (Some 20)" "oversActual ex_null_overs = Some None"
  by (simp_all add: ex_wide_def ex_single_def ex_null_overs_def ex_ball_fields)

lemma ex_make_runs:
  "make_ball_data ex_env (update_stats empty_stats 1 10 20 ex_wide) ex_wide
     = Inr (hd (output_of [ex_wide]))"
  "make_ball_data ex_env (update_stats empty_stats 1 10 20 ex_single) ex_single
     = Inr (hd (output_of [ex_single]))"
  by code_simp+

lemma ex_runs:
  "create_bbb_json ex_match_info [] ex_player_details [ex_single, ex_ball 1 1 1]
     = Inr (output_of [ex_single, ex_ball 1 1 1])"
  by code_simp

section \<open>Bowler wicket credit\<close>

text \<open>
  C3: for a processed delivery whose wicket flag is true, the innings wicket counter
  goes up by exactly one, and the bowler's credited wickets go up by one exactly when
  the dismissal type is caught (1), bowled (2), lbw (3), stumped (5) or hit wicket (11);
  for every other kind, a run out among them, the bowler's count stays as it is.
\<close>

theorem wicket_credit:
  assumes "processed e c" and "process_comment e st c = Inr (st', r)"
    and "inningNumber c = Some i" and "batsmanPlayerId c = Some (Some b)"
    and "bowlerPlayerId c = Some (Some w)"
    and "truthy_flag (isWicket c)"
  shows "inn_wkts (inning_stat_of st' i) = inn_wkts (inning_stat_of st i) + 1
       \<and> bowl_wkts (bowler_stat_of st' (i, w))
           = bowl_wkts (bowler_stat_of st (i, w))
             + (if dismissalType c \<in> {Some 1, Some 2, Some 3, Some 5, Some 11} then 1 else 0)"
  using process_comment_processed [OF assms(1-5)] assms(6)
  by (simp add: inning_stat_of_update bowler_stat_of_update)

theorem wicket_credit_witness:
  "processed ex_env (ex_wicket 2) \<and> truthy_flag (isWicket (ex_wicket 2))
   \<and> inn_wkts (inning_stat_of (update_stats empty_stats 1 10 20 (ex_wicket 2)) 1) = 1
   \<and> bowl_wkts (bowler_stat_of (update_stats empty_stats 1 10 20 (ex_wicket 2)) (1, 20)) = 1
   \<and> processed ex_env (ex_wicket 4) \<and> truthy_flag (isWicket (ex_wicket 4))
   \<and> inn_wkts (inning_stat_of (update_stats empty_stats 1 10 20 (ex_wicket 4)) 1) = 1
   \<and> bowl_wkts (bowler_stat_of (update_stats empty_stats 1 10 20 (ex_wicket 4)) (1, 20)) = 0"
proof -
  have p: "processed ex_env (ex_wicket 2)" "processed ex_env (ex_wicket 4)"
    using ex_emits by (simp_all add: emits_def)
  have s2: "process_comment ex_env empty_stats (ex_wicket 2)
     = Inr (update_stats empty_stats 1 10 20 (ex_wicket 2), Some (hd (output_of [ex_wicket 2])))"
    by (rule process_comment_emitted) (simp_all add: ex_emits ex_wicket_fields ex_make)
  have s4: "process_comment ex_env empty_stats (ex_wicket 4)
     = Inr (update_stats empty_stats 1 10 20 (ex_wicket 4), Some (hd (output_of [ex_wicket 4])))"
    by (rule process_comment_emitted) (simp_all add: ex_emits ex_wicket_fields ex_make)
  have z: "inn_wkts (inning_stat_of empty_stats 1) = 0"
    "bowl_wkts (bowler_stat_of empty_stats (1, 20)) = 0"
    by (simp_all add: inning_stat_of_def bowler_stat_of_def empty_stats_def)
  show ?thesis
    using wicket_credit [OF p(1) s2 ex_wicket_fields(1-4)]
      wicket_credit [OF p(2) s4 ex_wicket_fields(1-4)] p z
    by (simp add: ex_wicket_fields)
qed

section \<open>Legal-delivery accounting\<close>

text \<open>
  C4: for a processed delivery, the innings ball count, the bowler's balls bowled and
  the batter's balls faced each go up by one exactly when the delivery is neither a wide
  nor a no-ball; the batter's runs go up by the off-bat runs and the bowler's conceded
  runs by total runs minus byes minus leg-byes, whatever the legality.
\<close>

theorem legal_delivery_accounting:
  assumes "processed e c" and "process_comment e st c = Inr (st', r)"
    and "inningNumber c = Some i" and "batsmanPlayerId c = Some (Some b)"
    and "bowlerPlayerId c = Some (Some w)"
  shows "inn_balls (inning_stat_of st' i) = inn_balls (inning_stat_of st i)
            + (if get0 (wides c) = 0 \<and> get0 (noballs c) = 0 then 1 else 0)
       \<and> bowl_balls (bowler_stat_of st' (i, w)) = bowl_balls (bowler_stat_of st (i, w))
            + (if get0 (wides c) = 0 \<and> get0 (noballs c) = 0 then 1 else 0)
       \<and> bat_bf (batsman_stat_of st' (i, b)) = bat_bf (batsman_stat_of st (i, b))
            + (if get0 (wides c) = 0 \<and> get0 (noballs c) = 0 then 1 else 0)
       \<and> bat_runs (batsman_stat_of st' (i, b))
            = bat_runs (batsman_stat_of st (i, b)) + get0 (batsmanRuns c)
       \<and> bowl_runs (bowler_stat_of st' (i, w))
            = bowl_runs (bowler_stat_of st (i, w))
              + (get0 (totalRuns c) - get0 (byes c) - get0 (legbyes c))"
  using process_comment_processed [OF assms]
  by (simp add: inning_stat_of_update batsman_stat_of_update bowler_stat_of_update)

theorem legal_delivery_accounting_witness:
  "processed ex_env ex_wide
   \<and> inn_balls (inning_stat_of (update_stats empty_stats 1 10 20 ex_wide) 1) = 0
   \<and> bowl_balls (bowler_stat_of (update_stats empty_stats 1 10 20 ex_wide) (1, 20)) = 0
   \<and> bat_bf (batsman_stat_of (update_stats empty_stats 1 10 20 ex_wide) (1, 10)) = 0
   \<and> bat_runs (batsman_stat_of (update_stats empty_stats 1 10 20 ex_wide) (1, 10)) = 0
   \<and> bowl_runs (bowler_stat_of (update_stats empty_stats 1 10 20 ex_wide) (1, 20)) = 1
   \<and> processed ex_env ex_single
   \<and> inn_balls (inning_stat_of (update_stats empty_stats 1 10 20 ex_single) 1) = 1
   \<and> bowl_balls (bowler_stat_of (update_stats empty_stats 1 10 20 ex_single) (1, 20)) = 1
   \<and> bat_bf (batsman_stat_of (update_stats empty_stats 1 10 20 ex_single) (1, 10)) = 1
   \<and> bat_runs (batsman_stat_of (update_stats empty_stats 1 10 20 ex_single) (1, 10)) = 1
   \<and> bowl_runs (bowler_stat_of (update_stats empty_stats 1 10 20 ex_single) (1, 20)) = 1"
proof -
  have p: "processed ex_env ex_wide" "processed ex_env ex_single"
    using ex_emits by (simp_all add: emits_def)
  have sw: "process_comment ex_env empty_stats ex_wide
     = Inr (update_stats empty_stats 1 10 20 ex_wide, Some (hd (output_of [ex_wide])))"
    by (rule process_comment_emitted) (simp_all add: ex_emits ex_comment_fields ex_make_runs)
  have ss: "process_comment ex_env empty_stats ex_single
     = Inr (update_stats empty_stats 1 10 20 ex_single, Some (hd (output_of [ex_single])))"
    by (rule process_comment_emitted) (simp_all add: ex_emits ex_comment_fields ex_make_runs)
  have z: "inning_stat_of empty_stats 1 = \<lparr>inn_runs = 0, inn_wkts = 0, inn_balls = 0\<rparr>"
    "bowler_stat_of empty_stats (1, 20) = \<lparr>bowl_balls = 0, bowl_runs = 0, bowl_wkts = 0\<rparr>"
    "batsman_stat_of empty_stats (1, 10) = \<lparr>bat_runs = 0, bat_bf = 0\<rparr>"
    by (simp_all add: inning_stat_of_def bowler_stat_of_def batsman_stat_of_def empty_stats_def)
  have f: "get0 (wides ex_wide) = 1" "get0 (noballs ex_wide) = 0" "get0 (batsmanRuns ex_wide) = 0"
    "get0 (totalRuns ex_wide) = 1" "get0 (byes ex_wide) = 0" "get0 (legbyes ex_wide) = 0"
    "get0 (wides ex_single) = 0" "get0 (noballs ex_single) = 0" "get0 (batsmanRuns ex_single) = 1"
    "get0 (totalRuns ex_single) = 1" "get0 (byes ex_single) = 0" "get0 (legbyes ex_single) = 0"
    by (simp_all add: ex_wide_def ex_single_def ex_ball_def empty_comment_def get0_def)
  show ?thesis
    using legal_delivery_accounting [OF p(1) sw ex_comment_fields(1-3)]
      legal_delivery_accounting [OF p(2) ss ex_comment_fields(4-6)] p
    by (simp add: z f)
qed

section \<open>Skipped events\<close>

text \<open>
  An event that fails one of the three guards at the top of the loop body is skipped
  with the aggregates untouched (\<open>process_comment_skipped\<close>).

  C5: a skipped event, one that produces no output record, causes no aggregate mutation.
  The late skip does not keep to this: for a single whose \<^verbatim>\<open>oversActual\<close> is null the
  replay emits no record, yet the innings runs, the batter's runs and the bowler's balls
  have been counted.
\<close>

theorem late_skip_mutates_aggregates:
  "process_comment ex_env empty_stats ex_null_overs
     = Inr (update_stats empty_stats 1 10 20 ex_null_overs, None)
   \<and> inn_runs (inning_stat_of empty_stats 1) = 0
   \<and> inn_runs (inning_stat_of (update_stats empty_stats 1 10 20 ex_null_overs) 1) = 1
   \<and> bat_runs (batsman_stat_of (update_stats empty_stats 1 10 20 ex_null_overs) (1, 10)) = 1
   \<and> bowl_balls (bowler_stat_of (update_stats empty_stats 1 10 20 ex_null_overs) (1, 20)) = 1"
proof -
  have p: "processed ex_env ex_null_overs" by code_simp
  have "process_comment ex_env empty_stats ex_null_overs
     = Inr (update_stats empty_stats 1 10 20 ex_null_overs, None)"
    by (rule process_comment_late_skip [OF p ex_comment_fields(7-10)])
  moreover have "inn_runs (inning_stat_of empty_stats 1) = 0"
    "inn_runs (inning_stat_of (update_stats empty_stats 1 10 20 ex_null_overs) 1) = 1"
    "bat_runs (batsman_stat_of (update_stats empty_stats 1 10 20 ex_null_overs) (1, 10)) = 1"
    "bowl_balls (bowler_stat_of (update_stats empty_stats 1 10 20 ex_null_overs) (1, 20)) = 1"
    by code_simp+
  ultimately show ?thesis by simp
qed

section \<open>Order of the output records\<close>

text \<open>
  C6 (as stated): no two output records of a match share the key triple. A wide and the
  ball bowled again after it carry the same triple, and both are emitted.
\<close>

theorem duplicate_key_counterexample:
  "map_sum id (map record_key)
     (create_bbb_json ex_match_info [] ex_player_details [ex_wide, ex_ball 1 1 1])
   = Inr [(1, 1, 1), (1, 1, 1)]"
  by code_simp

text \<open>
  C6 (amended): the output records are in non-decreasing order of the key triple
  (innings, over, ball in over), the order of the stable sort on that triple; when no
  two events that carry the required keys share a triple, the order is strict and no two
  output records share a triple.
\<close>

theorem output_key_order:
  assumes "create_bbb_json mi innings_runs player_details comments = Inr out"
  shows "sorted (map record_key out)
       \<and> (distinct (map sort_key_of (filter has_required_keys comments))
            \<longrightarrow> sorted_wrt (<) (map record_key out) \<and> distinct (map record_key out))"
proof -
  define e where "e = \<lparr>e_match_info = mi, e_player_details = player_details,
      e_team_names = build_team_names mi, e_target = compute_target innings_runs,
      e_max_balls = compute_max_balls mi\<rparr>"
  define cs where "cs = sort_key sort_key_of comments"
  from create_bbb_json_replay [OF assms] have "process_comments e empty_stats cs = Inr out"
    by (simp add: e_def cs_def)
  then have keys: "map record_key out = map sort_key_of (filter (emits e) cs)"
    by (rule process_comments_keys)
  have "sorted (map sort_key_of cs)" by (simp add: cs_def)
  then have srt: "sorted (map record_key out)"
    unfolding keys by (rule sorted_filter)
  moreover
  { assume d: "distinct (map sort_key_of (filter has_required_keys comments))"
    then have "distinct (map sort_key_of (filter has_required_keys cs))"
      by (simp add: cs_def distinct_map_sort_key)
    then have "distinct (map sort_key_of (filter (emits e) (filter has_required_keys cs)))"
      by (rule distinct_map_filter)
    then have "distinct (map sort_key_of (filter (emits e) cs))"
      by (simp only: filter_emits_keys [symmetric])
    then have "distinct (map record_key out)"
      by (simp only: keys)
    with srt have "sorted_wrt (<) (map record_key out) \<and> distinct (map record_key out)"
      by (simp add: strict_sorted_iff) }
  ultimately show ?thesis by blast
qed

theorem output_key_order_witness:
  "distinct (map sort_key_of (filter has_required_keys [ex_single, ex_ball 1 1 1]))
   \<and> map record_key (output_of [ex_single, ex_ball 1 1 1]) = [(1, 1, 1), (1, 1, 2)]
   \<and> sorted (map record_key (output_of [ex_single, ex_ball 1 1 1]))
   \<and> sorted_wrt (<) (map record_key (output_of [ex_single, ex_ball 1 1 1]))
   \<and> distinct (map record_key (output_of [ex_single, ex_ball 1 1 1]))"
proof -
  have d: "distinct (map sort_key_of (filter has_required_keys [ex_single, ex_ball 1 1 1]))"
    by code_simp
  have k: "map record_key (output_of [ex_single, ex_ball 1 1 1]) = [(1, 1, 1), (1, 1, 2)]"
    by code_simp
  from output_key_order [OF ex_runs] d k show ?thesis by blast
qed

section \<open>Monotone counters\<close>

text \<open>
  C7 (as stated): every snapshotted counter is non-decreasing within its scope. A bye
  whose event has no \<^verbatim>\<open>totalRuns\<close> key takes one run off the bowler's conceded runs:
  the two records of bowler 20 in innings 1 show 0 and then -1.
\<close>

theorem runs_conceded_counterexample:
  "map_sum id (map bd_cur_bowl_runs \<circ> of_bowler 1 20)
     (create_bbb_json ex_match_info [] ex_player_details [ex_ball 1 1 1, ex_bye_no_total])
   = Inr [0, - 1]"
  by code_simp

text \<open>
  C7 (amended): within each scope (innings; innings and batter; innings and bowler) the
  wickets and the balls counters are non-decreasing from each record to the next one of
  the scope; the run counters (innings runs, batter runs, runs conceded) are
  non-decreasing when every event has non-negative total and off-bat runs and a total
  no smaller than its byes plus leg-byes.
\<close>

theorem counters_monotone:
  assumes "create_bbb_json mi innings_runs player_details comments = Inr out"
  shows "sorted (map bd_inns_wkts (in_innings i out))
       \<and> sorted (map bd_inns_balls (in_innings i out))
       \<and> sorted (map bd_cur_bat_bf (of_batter i b out))
       \<and> sorted (map bd_cur_bowl_ovr (of_bowler i w out))
       \<and> sorted (map bd_cur_bowl_wkts (of_bowler i w out))
       \<and> ((\<forall>c\<in>set comments. runs_consistent c) \<longrightarrow>
            sorted (map bd_inns_runs (in_innings i out))
          \<and> sorted (map bd_cur_bat_runs (of_batter i b out))
          \<and> sorted (map bd_cur_bowl_runs (of_bowler i w out)))"
proof -
  note run = create_bbb_json_replay [OF assms]
  have "\<forall>c\<in>set (sort_key sort_key_of comments). runs_consistent c"
    if "\<forall>c\<in>set comments. runs_consistent c"
    using that by simp
  then show ?thesis
    using sorted_inns_wkts [OF run] sorted_inns_balls [OF run] sorted_cur_bat_bf [OF run]
      sorted_cur_bowl_ovr [OF run] sorted_cur_bowl_wkts [OF run]
      sorted_inns_runs [OF run] sorted_cur_bat_runs [OF run] sorted_cur_bowl_runs [OF run]
    by blast
qed

theorem counters_monotone_witness:
  "runs_consistent ex_single \<and> runs_consistent (ex_ball 1 1 1)
   \<and> map bd_inns_runs (in_innings 1 (output_of [ex_single, ex_ball 1 1 1])) = [0, 1]
   \<and> map bd_inns_balls (in_innings 1 (output_of [ex_single, ex_ball 1 1 1])) = [1, 2]
   \<and> sorted (map bd_inns_wkts (in_innings 1 (output_of [ex_single, ex_ball 1 1 1])))
   \<and> sorted (map bd_inns_balls (in_innings 1 (output_of [ex_single, ex_ball 1 1 1])))
   \<and> sorted (map bd_cur_bat_bf (of_batter 1 10 (output_of [ex_single, ex_ball 1 1 1])))
   \<and> sorted (map bd_cur_bowl_ovr (of_bowler 1 20 (output_of [ex_single, ex_ball 1 1 1])))
   \<and> sorted (map bd_cur_bowl_wkts (of_bowler 1 20 (output_of [ex_single, ex_ball 1 1 1])))
   \<and> sorted (map bd_inns_runs (in_innings 1 (output_of [ex_single, ex_ball 1 1 1])))
   \<and> sorted (map bd_cur_bat_runs (of_batter 1 10 (output_of [ex_single, ex_ball 1 1 1])))
   \<and> sorted (map bd_cur_bowl_runs (of_bowler 1 20 (output_of [ex_single, ex_ball 1 1 1])))"
proof -
  have c: "runs_consistent ex_single" "runs_consistent (ex_ball 1 1 1)"
    by code_simp+
  then have a: "\<forall>c\<in>set [ex_single, ex_ball 1 1 1]. runs_consistent c"
    by simp
  have v: "map bd_inns_runs (in_innings 1 (output_of [ex_single, ex_ball 1 1 1])) = [0, 1]"
    "map bd_inns_balls (in_innings 1 (output_of [ex_single, ex_ball 1 1 1])) = [1, 2]"
    by code_simp+
  from counters_monotone [OF ex_runs, of 1 10 20] a c v show ?thesis by blast
qed

section \<open>Date of birth\<close>

lemma digit_0: "digit 0 = CHR ''0''"
  by code_simp

lemma str_nat_small: "n < 10 \<Longrightarrow> str_nat n = [digit n]"
  by (simp add: str_nat.simps)

lemma str_nat_2: "10 \<le> n \<Longrightarrow> n < 100 \<Longrightarrow> str_nat n = [digit (n div 10), digit (n mod 10)]"
  by (subst str_nat.simps) (simp add: str_nat_small)

lemma str_nat_3: "100 \<le> n \<Longrightarrow> n < 1000 \<Longrightarrow>
    str_nat n = [digit (n div 100), digit (n div 10 mod 10), digit (n mod 10)]"
  by (subst str_nat.simps) (simp add: str_nat_2 div_mult2_eq [symmetric])

lemma str_nat_4: "1000 \<le> n \<Longrightarrow> n < 10000 \<Longrightarrow>
    str_nat n = [digit (n div 1000), digit (n div 100 mod 10), digit (n div 10 mod 10), digit (n mod 10)]"
  by (subst str_nat.simps) (simp add: str_nat_3 div_mult2_eq [symmetric])

lemma zfill2: "n < 100 \<Longrightarrow> zfill 2 (str_nat n) = [digit (n div 10), digit (n mod 10)]"
  by (cases "n < 10") (simp_all add: zfill_def str_nat_small str_nat_2 digit_0)

lemma zfill4:
  assumes "n < 10000"
  shows "zfill 4 (str_nat n) =
   [digit (n div 1000), digit (n div 100 mod 10), digit (n div 10 mod 10), digit (n mod 10)]"
proof -
  consider "n < 10" | "10 \<le> n" "n < 100" | "100 \<le> n" "n < 1000" | "1000 \<le> n"
    by linarith
  then show ?thesis
  proof cases
    case 1
    then show ?thesis by (simp add: zfill_def str_nat_small digit_0 numeral_3_eq_3)
  next
    case 2
    then show ?thesis by (simp add: zfill_def str_nat_2 digit_0 numeral_2_eq_2)
  next
    case 3
    then show ?thesis by (simp add: zfill_def str_nat_3 digit_0)
  next
    case 4
    with assms show ?thesis by (simp add: zfill_def str_nat_4)
  qed
qed

lemma fmt_0d_2: "0 \<le> i \<Longrightarrow> i < 100 \<Longrightarrow> fmt_0d 2 i = [digit (nat i div 10), digit (nat i mod 10)]"
  by (simp add: fmt_0d_def zfill2)

lemma fmt_0d_4: "0 \<le> i \<Longrightarrow> i < 10000 \<Longrightarrow>
    fmt_0d 4 i = [digit (nat i div 1000), digit (nat i div 100 mod 10),
                  digit (nat i div 10 mod 10), digit (nat i mod 10)]"
  by (simp add: fmt_0d_def zfill4)

lemma monthrange_days_bounds:
  assumes "1 \<le> m" and "m \<le> 12"
  shows "28 \<le> monthrange_days y m" and "monthrange_days y m \<le> 31"
proof -
  from assms have "m = 1 \<or> m = 2 \<or> m = 3 \<or> m = 4 \<or> m = 5 \<or> m = 6 \<or> m = 7 \<or> m = 8
      \<or> m = 9 \<or> m = 10 \<or> m = 11 \<or> m = 12"
    by arith
  then show "28 \<le> monthrange_days y m" and "monthrange_days y m \<le> 31"
    by (auto simp: monthrange_days_def mdays_def)
qed

lemma validate_date_Some:
  assumes "1 \<le> mm" and "mm \<le> 12"
  shows "validate_date (Some \<lparr>date = Some dd, month = Some mm, year = Some yy\<rparr>)
     = Some (fmt_0d 4 yy @ ''-'' @ fmt_0d 2 mm @ ''-'' @ fmt_0d 2 (clamp_day yy mm dd))"
  using assms monthrange_days_bounds [OF assms, of yy]
  by (auto simp: validate_date_def clamp_day_def Let_def max_def min_def)

lemma iso_date_format:
  assumes "0 \<le> y" "y \<le> 9999" "1 \<le> m" "m \<le> 12" "1 \<le> d" "d \<le> 31"
  shows "fmt_0d 4 y @ ''-'' @ fmt_0d 2 m @ ''-'' @ fmt_0d 2 d = iso_date y m d"
  using assms by (simp add: fmt_0d_2 fmt_0d_4 iso_date_def)

lemma validate_date_iso:
  assumes "1 \<le> mm" and "mm \<le> 12" and "0 \<le> yy" and "yy \<le> 9999"
  shows "validate_date (Some \<lparr>date = Some dd, month = Some mm, year = Some yy\<rparr>)
     = Some (iso_date yy mm (clamp_day yy mm dd))"
proof -
  note b = monthrange_days_bounds [OF assms(1,2), of yy]
  from b have "1 \<le> clamp_day yy mm dd" and "clamp_day yy mm dd \<le> 31"
    by (simp_all add: clamp_day_def)
  then have "fmt_0d 4 yy @ ''-'' @ fmt_0d 2 mm @ ''-'' @ fmt_0d 2 (clamp_day yy mm dd)
      = iso_date yy mm (clamp_day yy mm dd)"
    using assms by (intro iso_date_format)
  then show ?thesis
    by (simp only: validate_date_Some [OF assms(1,2)])
qed

text \<open>
  C10: validate_date returns None when the date of birth is missing, when one of year,
  month or day is missing, or when the month is outside 1..12. Otherwise it never
  rejects: the day is clamped into 1 .. last day of the month (below 1 becomes 1, past
  the last day becomes the last day, a day in range is kept) and the result is the
  year, month and clamped day joined by dashes, zero-padded to 4, 2 and 2 digits; for a
  year of at most four digits that is the ten characters YYYY-MM-DD.
\<close>

theorem validate_date_clamps:
  "validate_date None = None
   \<and> ((d = None \<or> m = None \<or> y = None)
        \<longrightarrow> validate_date (Some \<lparr>date = d, month = m, year = y\<rparr>) = None)
   \<and> ((mm < 1 \<or> mm > 12)
        \<longrightarrow> validate_date (Some \<lparr>date = Some dd, month = Some mm, year = Some yy\<rparr>) = None)
   \<and> (1 \<le> mm \<and> mm \<le> 12 \<longrightarrow>
        validate_date (Some \<lparr>date = Some dd, month = Some mm, year = Some yy\<rparr>)
          = Some (fmt_0d 4 yy @ ''-'' @ fmt_0d 2 mm @ ''-'' @ fmt_0d 2 (clamp_day yy mm dd))
        \<and> 1 \<le> clamp_day yy mm dd \<and> clamp_day yy mm dd \<le> monthrange_days yy mm
        \<and> (dd < 1 \<longrightarrow> clamp_day yy mm dd = 1)
        \<and> (monthrange_days yy mm < dd \<longrightarrow> clamp_day yy mm dd = monthrange_days yy mm)
        \<and> (1 \<le> dd \<and> dd \<le> monthrange_days yy mm \<longrightarrow> clamp_day yy mm dd = dd)
        \<and> (0 \<le> yy \<and> yy \<le> 9999 \<longrightarrow>
             validate_date (Some \<lparr>date = Some dd, month = Some mm, year = Some yy\<rparr>)
               = Some (iso_date yy mm (clamp_day yy mm dd))))"
proof (intro conjI impI)
  show "validate_date None = None"
    by (simp add: validate_date_def)
  show "validate_date (Some \<lparr>date = d, month = m, year = y\<rparr>) = None"
    if "d = None \<or> m = None \<or> y = None"
    using that by (auto simp: validate_date_def)
  show "validate_date (Some \<lparr>date = Some dd, month = Some mm, year = Some yy\<rparr>) = None"
    if "mm < 1 \<or> mm > 12"
    using that by (auto simp: validate_date_def Let_def)
  show "validate_date (Some \<lparr>date = Some dd, month = Some mm, year = Some yy\<rparr>)
          = Some (fmt_0d 4 yy @ ''-'' @ fmt_0d 2 mm @ ''-'' @ fmt_0d 2 (clamp_day yy mm dd))"
    if "1 \<le> mm \<and> mm \<le> 12"
    using that by (intro validate_date_Some) simp_all
  show "1 \<le> clamp_day yy mm dd" if "1 \<le> mm \<and> mm \<le> 12"
    by (simp add: clamp_day_def)
  show "clamp_day yy mm dd \<le> monthrange_days yy mm" if "1 \<le> mm \<and> mm \<le> 12"
    using that monthrange_days_bounds(1) [of mm yy] by (simp add: clamp_day_def)
  show "clamp_day yy mm dd = 1" if "1 \<le> mm \<and> mm \<le> 12" and "dd < 1"
    using that by (simp add: clamp_day_def)
  show "clamp_day yy mm dd = monthrange_days yy mm"
    if "1 \<le> mm \<and> mm \<le> 12" and "monthrange_days yy mm < dd"
    using that monthrange_days_bounds(1) [of mm yy] by (simp add: clamp_day_def)
  show "clamp_day yy mm dd = dd"
    if "1 \<le> mm \<and> mm \<le> 12" and "1 \<le> dd \<and> dd \<le> monthrange_days yy mm"
    using that by (simp add: clamp_day_def)
  show "validate_date (Some \<lparr>date = Some dd, month = Some mm, year = Some yy\<rparr>)
               = Some (iso_date yy mm (clamp_day yy mm dd))"
    if "1 \<le> mm \<and> mm \<le> 12" and "0 \<le> yy \<and> yy \<le> 9999"
    using that by (intro validate_date_iso) simp_all
qed

theorem validate_date_clamps_witness:
  "validate_date (Some \<lparr>date = Some 31, month = Some 2, year = Some 2000\<rparr>) = Some ''2000-02-29''
   \<and> validate_date (Some \<lparr>date = Some 0, month = Some 2, year = Some 1900\<rparr>) = Some ''1900-02-01''
   \<and> validate_date (Some \<lparr>date = Some 15, month = Some 13, year = Some 1990\<rparr>) = None
   \<and> validate_date (Some \<lparr>date = None, month = Some 5, year = Some 1990\<rparr>) = None"
proof -
  have a: "iso_date 2000 2 (clamp_day 2000 2 31) = ''2000-02-29''"
    "iso_date 1900 2 (clamp_day 1900 2 0) = ''1900-02-01''"
    by code_simp+
  have "validate_date (Some \<lparr>date = Some 31, month = Some 2, year = Some 2000\<rparr>)
          = Some (iso_date 2000 2 (clamp_day 2000 2 31))"
    using validate_date_clamps [of None None None 2 31 2000] by linarith
  moreover have "validate_date (Some \<lparr>date = Some 0, month = Some 2, year = Some 1900\<rparr>)
          = Some (iso_date 1900 2 (clamp_day 1900 2 0))"
    using validate_date_clamps [of None None None 2 0 1900] by linarith
  moreover have "validate_date (Some \<lparr>date = Some 15, month = Some 13, year = Some 1990\<rparr>) = None"
    using validate_date_clamps [of None None None 13 15 1990] by linarith
  moreover have "validate_date (Some \<lparr>date = None, month = Some 5, year = Some 1990\<rparr>) = None"
    using validate_date_clamps [of None "Some 5" "Some 1990" 1 1 1] by blast
  ultimately show ?thesis by (simp add: a)
qed

section \<open>Classification of a fetch\<close>

text \<open>
  C8 (as stated): a payload with at most one top-level key is dropped. The empty object
  has no key at all and is kept: the test \<^verbatim>\<open>data and len(data) <= 1\<close> is false for it.
\<close>

theorem empty_payload_counterexample:
  "fetch_url ex_url_info (Response \<lparr>status_code = 200, body = Some (JObj [])\<rparr>)
     = Some \<lparr>res_fixture_id = 7, res_type = ''scorecard'', res_data = JObj []\<rparr>"
  by (simp add: fetch_url_def ex_url_info_def)

text \<open>
  C8 (amended): fetch_url returns None when the request raises, when the status is not
  200, when the body fails JSON decoding, and when the decoded payload is non-empty with
  at most one top-level entry (an object with exactly one key; a non-empty payload without
  a length raises inside the handler and is dropped as well). Every other payload, the
  empty object among them, is returned with its fixture id and document kind.
\<close>

theorem fetch_url_classification:
  "fetch_url ui Raised = None
   \<and> (status_code r \<noteq> 200 \<longrightarrow> fetch_url ui (Response r) = None)
   \<and> (status_code r = 200 \<and> body r = None \<longrightarrow> fetch_url ui (Response r) = None)
   \<and> (status_code r = 200 \<and> body r = Some (JObj kvs) \<longrightarrow>
        fetch_url ui (Response r) = (if length kvs = 1 then None else Some (kept ui (JObj kvs))))
   \<and> (status_code r = 200 \<and> body r = Some data \<longrightarrow>
        fetch_url ui (Response r)
          = (if truthy data \<and> (case py_len data of Inl _ \<Rightarrow> True | Inr n \<Rightarrow> n \<le> 1)
             then None else Some (kept ui data)))"
proof (intro conjI impI)
  show "fetch_url ui Raised = None"
    by (simp add: fetch_url_def)
  show "fetch_url ui (Response r) = None" if "status_code r \<noteq> 200"
    using that by (simp add: fetch_url_def)
  show "fetch_url ui (Response r) = None" if "status_code r = 200 \<and> body r = None"
    using that by (simp add: fetch_url_def)
  show "fetch_url ui (Response r)
          = (if truthy data \<and> (case py_len data of Inl _ \<Rightarrow> True | Inr n \<Rightarrow> n \<le> 1)
             then None else Some (kept ui data))"
    if "status_code r = 200 \<and> body r = Some data" for data
    using that by (simp add: fetch_url_def kept_def split: sum.splits)
  from this [of "JObj kvs"]
  show "fetch_url ui (Response r) = (if length kvs = 1 then None else Some (kept ui (JObj kvs)))"
    if "status_code r = 200 \<and> body r = Some (JObj kvs)"
    using that by (cases kvs) auto
qed

theorem fetch_url_classification_witness:
  "fetch_url ex_url_info (Response \<lparr>status_code = 404, body = Some (JObj [])\<rparr>) = None
   \<and> fetch_url ex_url_info (Response \<lparr>status_code = 200, body = None\<rparr>) = None
   \<and> fetch_url ex_url_info (Response \<lparr>status_code = 200, body = Some (JObj [(''message'', JNull)])\<rparr>)
       = None
   \<and> fetch_url ex_url_info
        (Response \<lparr>status_code = 200, body = Some (JObj [(''fixture'', JNull), (''players'', JArr [])])\<rparr>)
       = Some (kept ex_url_info (JObj [(''fixture'', JNull), (''players'', JArr [])]))
   \<and> fetch_url ex_url_info (Response \<lparr>status_code = 200, body = Some (JInt 5)\<rparr>) = None"
  using fetch_url_classification
          [of ex_url_info "\<lparr>status_code = 404, body = Some (JObj [])\<rparr>" "[]" JNull]
        fetch_url_classification
          [of ex_url_info "\<lparr>status_code = 200, body = None\<rparr>" "[]" JNull]
        fetch_url_classification
          [of ex_url_info "\<lparr>status_code = 200, body = Some (JObj [(''message'', JNull)])\<rparr>"
              "[(''message'', JNull)]" JNull]
        fetch_url_classification
          [of ex_url_info
              "\<lparr>status_code = 200, body = Some (JObj [(''fixture'', JNull), (''players'', JArr [])])\<rparr>"
              "[(''fixture'', JNull), (''players'', JArr [])]" JNull]
        fetch_url_classification
          [of ex_url_info "\<lparr>status_code = 200, body = Some (JInt 5)\<rparr>" "[]" "JInt 5"]
  by simp

section \<open>Work generation\<close>

lemma generate_loop_prefix:
  "\<exists>n\<le>length ids.
      generate_loop fe ids acc = acc @ urls_upto fe ids n
    \<and> (\<forall>m. 0 < m \<and> m < n \<longrightarrow> length (acc @ urls_upto fe ids m) \<le> 1000)
    \<and> (n < length ids \<longrightarrow> length (generate_loop fe ids acc) > 1000)"
proof (induction ids arbitrary: acc)
  case Nil
  then show ?case by (simp add: urls_upto_def)
next
  case (Cons i ids)
  let ?acc = "acc @ fixture_urls fe i"
  show ?case
  proof (cases "length ?acc > 1000")
    case True
    then have "generate_loop fe (i # ids) acc = acc @ urls_upto fe (i # ids) 1"
      by (simp add: urls_upto_def Let_def)
    moreover from True have "length (generate_loop fe (i # ids) acc) > 1000"
      by (simp add: Let_def)
    ultimately show ?thesis
      by (intro exI [of _ 1]) simp
  next
    case False
    from Cons.IH [of ?acc] obtain n where n: "n \<le> length ids"
      and eq: "generate_loop fe ids ?acc = ?acc @ urls_upto fe ids n"
      and below: "\<forall>m. 0 < m \<and> m < n \<longrightarrow> length (?acc @ urls_upto fe ids m) \<le> 1000"
      and stop: "n < length ids \<longrightarrow> length (generate_loop fe ids ?acc) > 1000"
      by blast
    from False have step: "generate_loop fe (i # ids) acc = generate_loop fe ids ?acc"
      by (simp add: Let_def)
    have shift: "acc @ urls_upto fe (i # ids) (Suc m) = ?acc @ urls_upto fe ids m" for m
      by (simp add: urls_upto_def)
    have "\<forall>m. 0 < m \<and> m < Suc n \<longrightarrow> length (acc @ urls_upto fe (i # ids) m) \<le> 1000"
    proof (intro allI impI)
      fix m assume m: "0 < m \<and> m < Suc n"
      then obtain k where k: "m = Suc k" by (cases m) auto
      show "length (acc @ urls_upto fe (i # ids) m) \<le> 1000"
      proof (cases k)
        case 0
        with k False show ?thesis by (simp add: urls_upto_def)
      next
        case (Suc j)
        with k m below have "length (?acc @ urls_upto fe ids k) \<le> 1000" by simp
        with k shift [of k] show ?thesis by simp
      qed
    qed
    with n eq stop step shift [of n] show ?thesis
      by (intro exI [of _ "Suc n"]) simp
  qed
qed

lemma str_int_inning:
  "str_int 1 = ''1''" "str_int 2 = ''2''" "str_int 3 = ''3''" "str_int 4 = ''4''"
  by code_simp+

lemma fixture_urls_kinds:
  "map ui_type (fixture_urls fe i) = filter (\<lambda>k. \<not> fe (kind_file i k)) kinds"
  by (simp add: fixture_urls_def kinds_def kind_file_def scorecard_file_def inning_file_def
        str_int_inning)

lemma fixture_urls_id: "u \<in> set (fixture_urls fe i) \<Longrightarrow> ui_fixture_id u = i"
  by (auto simp: fixture_urls_def split: if_splits)

lemma descending_ids:
  "sorted_wrt (>) (rev (sorted_list_of_fset S))" "set (rev (sorted_list_of_fset S)) = fset S"
proof -
  have "sorted_wrt (<) (sorted_list_of_fset S)"
    by (simp add: sorted_list_of_fset.rep_eq)
  then show "sorted_wrt (>) (rev (sorted_list_of_fset S))"
    by (simp add: sorted_wrt_rev)
  show "set (rev (sorted_list_of_fset S)) = fset S" by simp
qed

lemma ex_generate:
  "length (generate_urls ex_exists {|5, 12|}) = 9"
  "rev (sorted_list_of_fset {|5, 12::int|}) = [12, 5]"
  "fcard {|5, 12::int|} = 2"
  "map ui_type (urls_upto ex_exists [12, 5] 2)
     = [''scorecard'', ''inning1'', ''inning3'', ''inning4'',
        ''scorecard'', ''inning1'', ''inning2'', ''inning3'', ''inning4'']"
  "map ui_fixture_id (urls_upto ex_exists [12, 5] 2) = [12, 12, 12, 12, 5, 5, 5, 5, 5]"
  by code_simp+

text \<open>
  C9: the fixture ids are visited in descending order; the fixture with id \<open>i\<close>
  contributes, in the order scorecard, inning1 .. inning4, exactly the kinds whose output
  file does not exist, each request carrying the id \<open>i\<close>; the result is what the first
  \<open>n\<close> ids contribute, where the total stayed within 1000 after each id before the
  \<open>n\<close>-th and, if ids are left over, exceeds 1000 after the \<open>n\<close>-th, where generation
  stopped.
\<close>

theorem generate_urls_work:
  "sorted_wrt (>) (rev (sorted_list_of_fset fixture_ids))
   \<and> set (rev (sorted_list_of_fset fixture_ids)) = fset fixture_ids
   \<and> (\<exists>n\<le>fcard fixture_ids.
         generate_urls fe fixture_ids = urls_upto fe (rev (sorted_list_of_fset fixture_ids)) n
       \<and> (\<forall>m. 0 < m \<and> m < n
             \<longrightarrow> length (urls_upto fe (rev (sorted_list_of_fset fixture_ids)) m) \<le> 1000)
       \<and> (n < fcard fixture_ids \<longrightarrow> length (generate_urls fe fixture_ids) > 1000))
   \<and> map ui_type (fixture_urls fe i) = filter (\<lambda>k. \<not> fe (kind_file i k)) kinds
   \<and> (\<forall>u\<in>set (fixture_urls fe i). ui_fixture_id u = i)"
proof -
  let ?ids = "rev (sorted_list_of_fset fixture_ids)"
  have len: "length ?ids = fcard fixture_ids"
    by (simp add: fcard.rep_eq sorted_list_of_fset.rep_eq)
  from generate_loop_prefix [of ?ids fe "[]"] len
  have "\<exists>n\<le>fcard fixture_ids.
         generate_urls fe fixture_ids = urls_upto fe ?ids n
       \<and> (\<forall>m. 0 < m \<and> m < n \<longrightarrow> length (urls_upto fe ?ids m) \<le> 1000)
       \<and> (n < fcard fixture_ids \<longrightarrow> length (generate_urls fe fixture_ids) > 1000)"
    by (simp add: generate_urls_def)
  with descending_ids [of fixture_ids] fixture_urls_kinds [of fe i] fixture_urls_id [of _ fe i]
  show ?thesis by blast
qed

theorem generate_urls_work_witness:
  "map ui_type (generate_urls ex_exists {|5, 12|})
     = [''scorecard'', ''inning1'', ''inning3'', ''inning4'',
        ''scorecard'', ''inning1'', ''inning2'', ''inning3'', ''inning4'']
   \<and> map ui_fixture_id (generate_urls ex_exists {|5, 12|}) = [12, 12, 12, 12, 5, 5, 5, 5, 5]"
proof -
  from generate_urls_work [of "{|5, 12|}" ex_exists 12]
  obtain n where n: "n \<le> fcard {|5, 12::int|}"
    and eq: "generate_urls ex_exists {|5, 12|}
               = urls_upto ex_exists (rev (sorted_list_of_fset {|5, 12|})) n"
    and stop: "n < fcard {|5, 12::int|} \<longrightarrow> length (generate_urls ex_exists {|5, 12|}) > 1000"
    by blast
  from n stop have "n = 2" by (simp add: ex_generate)
  with eq have "generate_urls ex_exists {|5, 12|} = urls_upto ex_exists [12, 5] 2"
    by (simp add: ex_generate)
  then show ?thesis by (simp add: ex_generate)
qed

end
